theory Spec2Isabelle
  imports Main "HOL-Library.Word"
begin

section \<open>Strings and buffers\<close>

text \<open>
  A JavaScript string is a sequence of 16-bit code units; a \<open>Buffer\<close> is a sequence of
  bytes. Strings that are encrypted, decrypted or stored as ciphertext are modelled as
  code-unit lists, because \<open>encrypt\<close> and \<open>decrypt\<close> convert between the two through
  the \<open>'utf8'\<close> and \<open>'hex'\<close> encodings. Identifiers, names, scopes and messages, whose
  encoding plays no role, are plain \<open>string\<close>s.
\<close>

type_synonym byte = "8 word"
type_synonym jschar = "16 word"
type_synonym jsstring = "jschar list"

definition js :: "string \<Rightarrow> jsstring" where
  \<comment> \<open>an ASCII literal as a JavaScript string\<close>
  "js s = map (\<lambda>c. of_nat (of_char c)) s"

definition is_high :: "jschar \<Rightarrow> bool" where
  "is_high u \<longleftrightarrow> 0xD800 \<le> unat u \<and> unat u \<le> 0xDBFF"

definition is_low :: "jschar \<Rightarrow> bool" where
  "is_low u \<longleftrightarrow> 0xDC00 \<le> unat u \<and> unat u \<le> 0xDFFF"

text \<open>
  Reading a string as \<open>'utf8'\<close> input (\<open>cipher.update(text, 'utf8', 'hex')\<close>): a surrogate
  pair is one code point, and a surrogate code unit that is not part of a pair is
  replaced by U+FFFD before it is encoded.
\<close>

fun code_points :: "jsstring \<Rightarrow> nat list" where
  "code_points [] = []"
| "code_points (u # us) =
     (if is_high u then
        (case us of
           [] \<Rightarrow> [0xFFFD]
         | v # r \<Rightarrow>
             if is_low v
             then (0x10000 + (unat u - 0xD800) * 0x400 + (unat v - 0xDC00)) # code_points r
             else 0xFFFD # code_points us)
      else if is_low u then 0xFFFD # code_points us
      else unat u # code_points us)"

definition encode_cp :: "nat \<Rightarrow> nat list" where
  "encode_cp cp =
     (if cp < 0x80 then [cp]
      else if cp < 0x800 then [0xC0 + cp div 64, 0x80 + cp mod 64]
      else if cp < 0x10000 then
        [0xE0 + cp div 4096, 0x80 + (cp div 64) mod 64, 0x80 + cp mod 64]
      else
        [0xF0 + cp div 262144, 0x80 + (cp div 4096) mod 64,
         0x80 + (cp div 64) mod 64, 0x80 + cp mod 64])"

definition utf8_bytes :: "jsstring \<Rightarrow> byte list" where
  "utf8_bytes s = map of_nat (concat (map encode_cp (code_points s)))"

text \<open>
  Writing bytes as \<open>'utf8'\<close> output (\<open>decipher.update(encrypted, 'hex', 'utf8')\<close>): each
  well-formed sequence is one code point; an ill-formed prefix is replaced by U+FFFD and
  decoding resumes at the byte that broke the sequence.
\<close>

definition cont :: "nat \<Rightarrow> bool" where
  "cont b \<longleftrightarrow> 0x80 \<le> b \<and> b \<le> 0xBF"

definition second_ok :: "nat \<Rightarrow> nat \<Rightarrow> bool" where
  \<comment> \<open>the range allowed for the byte after the lead byte \<open>b0\<close>\<close>
  "second_ok b0 b1 \<longleftrightarrow>
     (if b0 = 0xE0 then 0xA0 \<le> b1 \<and> b1 \<le> 0xBF
      else if b0 = 0xED then 0x80 \<le> b1 \<and> b1 \<le> 0x9F
      else if b0 = 0xF0 then 0x90 \<le> b1 \<and> b1 \<le> 0xBF
      else if b0 = 0xF4 then 0x80 \<le> b1 \<and> b1 \<le> 0x8F
      else cont b1)"

fun utf8_decode :: "nat list \<Rightarrow> nat list" where
  "utf8_decode [] = []"
| "utf8_decode (b0 # bs) =
     (if b0 < 0x80 then b0 # utf8_decode bs
      else if 0xC2 \<le> b0 \<and> b0 \<le> 0xDF then
        (case bs of
           [] \<Rightarrow> [0xFFFD]
         | b1 # r1 \<Rightarrow>
             if cont b1 then ((b0 - 0xC0) * 64 + (b1 - 0x80)) # utf8_decode r1
             else 0xFFFD # utf8_decode bs)
      else if 0xE0 \<le> b0 \<and> b0 \<le> 0xEF then
        (case bs of
           [] \<Rightarrow> [0xFFFD]
         | b1 # r1 \<Rightarrow>
             if second_ok b0 b1 then
               (case r1 of
                  [] \<Rightarrow> [0xFFFD]
                | b2 # r2 \<Rightarrow>
                    if cont b2
                    then ((b0 - 0xE0) * 4096 + (b1 - 0x80) * 64 + (b2 - 0x80)) # utf8_decode r2
                    else 0xFFFD # utf8_decode r1)
             else 0xFFFD # utf8_decode bs)
      else if 0xF0 \<le> b0 \<and> b0 \<le> 0xF4 then
        (case bs of
           [] \<Rightarrow> [0xFFFD]
         | b1 # r1 \<Rightarrow>
             if second_ok b0 b1 then
               (case r1 of
                  [] \<Rightarrow> [0xFFFD]
                | b2 # r2 \<Rightarrow>
                    if cont b2 then
                      (case r2 of
                         [] \<Rightarrow> [0xFFFD]
                       | b3 # r3 \<Rightarrow>
                           if cont b3
                           then ((b0 - 0xF0) * 262144 + (b1 - 0x80) * 4096
                                  + (b2 - 0x80) * 64 + (b3 - 0x80)) # utf8_decode r3
                           else 0xFFFD # utf8_decode r2)
                    else 0xFFFD # utf8_decode r1)
             else 0xFFFD # utf8_decode bs)
      else 0xFFFD # utf8_decode bs)"

definition units :: "nat \<Rightarrow> jsstring" where
  \<comment> \<open>the UTF-16 code units of a code point\<close>
  "units cp =
     (if cp < 0x10000 then [of_nat cp]
      else [of_nat (0xD800 + (cp - 0x10000) div 0x400),
            of_nat (0xDC00 + (cp - 0x10000) mod 0x400)])"

definition utf8_string :: "byte list \<Rightarrow> jsstring" where
  "utf8_string bs = concat (map units (utf8_decode (map unat bs)))"

text \<open>
  \<open>buf.toString('hex')\<close> writes two lower-case digits per byte. \<open>Buffer.from(s, 'hex')\<close>
  reads digit pairs of either case and stops at the first pair that is not two
  hexadecimal digits, or at a single trailing character.
\<close>

definition hexdigit :: "nat \<Rightarrow> jschar" where
  "hexdigit n = (if n < 10 then of_nat (0x30 + n) else of_nat (0x61 + (n - 10)))"

definition toHex :: "byte list \<Rightarrow> jsstring" where
  "toHex bs = concat (map (\<lambda>b. [hexdigit (unat b div 16), hexdigit (unat b mod 16)]) bs)"

definition hexval :: "jschar \<Rightarrow> nat option" where
  "hexval c =
     (let n = unat c in
      if 0x30 \<le> n \<and> n \<le> 0x39 then Some (n - 0x30)
      else if 0x61 \<le> n \<and> n \<le> 0x66 then Some (n - 0x61 + 10)
      else if 0x41 \<le> n \<and> n \<le> 0x46 then Some (n - 0x41 + 10)
      else None)"

fun fromHex :: "jsstring \<Rightarrow> byte list" where
  "fromHex (c1 # c2 # r) =
     (case hexval c1 of
        None \<Rightarrow> []
      | Some h \<Rightarrow>
          (case hexval c2 of
             None \<Rightarrow> []
           | Some l \<Rightarrow> of_nat (h * 16 + l) # fromHex r))"
| "fromHex _ = []"

text \<open>\<open>s.split(sep)\<close> for a one-character separator: the empty string gives one empty part.\<close>

fun split :: "'a \<Rightarrow> 'a list \<Rightarrow> 'a list list" where
  "split sep [] = [[]]"
| "split sep (c # cs) =
     (if c = sep then [] # split sep cs
      else (case split sep cs of
              [] \<Rightarrow> [[c]]
            | p # ps \<Rightarrow> (c # p) # ps))"

definition colon :: jschar where
  "colon = 0x3A"


section \<open>Runtime: exceptions, crypto library, environment, stored state\<close>

datatype exn = Error string
  \<comment> \<open>a thrown \<open>Error\<close> (or \<open>TypeError\<close>) and its \<open>message\<close>, which is all that is read of it\<close>

fun message_of :: "exn \<Rightarrow> string" where
  "message_of (Error m) = m"

function show_nat :: "nat \<Rightarrow> string" where
  \<comment> \<open>a number inside a template literal\<close>
  "show_nat n =
     (if n < 10 then [char_of (48 + n)]
      else show_nat (n div 10) @ [char_of (48 + n mod 10)])"
  by pat_completeness auto
termination
  by (relation "measure id") auto

definition quoted :: "string \<Rightarrow> string" where
  \<comment> \<open>a name between single quotes, as error messages print it\<close>
  "quoted s = CHR 0x27 # s @ [CHR 0x27]"

text \<open>
  The process: the operations of \<open>node:crypto\<close> that the codec calls, the environment
  variables that are read, and what the libraries decide. \<open>pbkdf2Sync\<close> stands for
  \<open>crypto.pbkdf2Sync(key, salt, 100000, 32, 'sha512')\<close>; \<open>gcm_seal key iv plaintext\<close> for
  \<open>createCipheriv('aes-256-gcm', key, iv)\<close> with \<open>update\<close>, \<open>final\<close> and \<open>getAuthTag\<close>,
  giving ciphertext and tag. \<open>gcm_open key iv tag\<close> stands for \<open>createDecipheriv\<close> with
  \<open>setAuthTag\<close>: it throws (\<open>Inl\<close> the message) or gives the decipher, which stands for
  \<open>update\<close> and \<open>final\<close> on the ciphertext bytes and in turn throws or gives the plaintext
  bytes. \<open>LocalTime\<close> and \<open>UTC\<close> are the host's conversions between a time value and local
  time, which \<open>Date.prototype.setSeconds\<close> goes through; \<open>URLSearchParams\<close> is the query
  string of a parameter list. \<open>invalid_date_error\<close> is the message of the validation error
  that the Prisma client throws for an Invalid Date; \<open>timestamp_error t\<close> is the message of
  the error for a time value \<open>t\<close> that the query engine or the \<open>TIMESTAMP(3)\<close> column does
  not take, if there is one.
\<close>

record process =
  pbkdf2Sync :: "jsstring \<Rightarrow> byte list \<Rightarrow> byte list"
  gcm_seal :: "byte list \<Rightarrow> byte list \<Rightarrow> byte list \<Rightarrow> byte list \<times> byte list"
  gcm_open :: "byte list \<Rightarrow> byte list \<Rightarrow> byte list \<Rightarrow> string + (byte list \<Rightarrow> string + byte list)"
  ENCRYPTION_KEY :: "jsstring option"
  TWITCH_REDIRECT_URI :: "string option"
  LocalTime :: "int \<Rightarrow> int"
  UTC :: "int \<Rightarrow> int"
  URLSearchParams :: "(string \<times> string) list \<Rightarrow> string"
  invalid_date_error :: string
  timestamp_error :: "int \<Rightarrow> string option"

type_synonym ident = nat

record twitchConfig =
  cfg_id :: ident
  cfg_userId :: ident
  cfg_clientId :: string
  cfg_clientSecret :: jsstring
  cfg_name :: "string option"
  cfg_createdAt :: int
  cfg_updatedAt :: int

record savedToken =
  tok_id :: ident
  tok_userId :: ident
  tok_twitchConfigId :: ident
  tok_tokenType :: string
  tok_accessToken :: jsstring
  tok_refreshToken :: "jsstring option"
  tok_scopes :: "string list"
  tok_channelLogin :: "string option"
  tok_channelId :: "string option"
  tok_name :: "string option"
  tok_expiresAt :: "int option"
  tok_createdAt :: int
  tok_updatedAt :: int

record webhook =
  wh_id :: ident
  wh_userId :: ident
  wh_subscriptionId :: string
  wh_type :: string
  wh_condition :: "(string \<times> string) list"
  wh_callbackUrl :: string
  wh_status :: string
  wh_cost :: int
  wh_createdAt :: int
  wh_updatedAt :: int

text \<open>
  The state a request handler runs in: the three tables, the clock (milliseconds, read
  by \<open>Date.now()\<close> and by the database for its timestamps), and the operating system's
  random bytes as a tape with a read position.
\<close>

record world =
  configs :: "twitchConfig list"
  tokens :: "savedToken list"
  webhooks :: "webhook list"
  clock :: int
  tape :: "nat \<Rightarrow> byte"
  tpos :: nat

definition randomBytes :: "nat \<Rightarrow> world \<Rightarrow> byte list \<times> world" where
  "randomBytes n w = (map (tape w) [tpos w ..< tpos w + n], w\<lparr>tpos := tpos w + n\<rparr>)"

section \<open>Symmetric secret codec (utils/encryption.ts)\<close>

definition getKey :: "process \<Rightarrow> byte list \<Rightarrow> exn + byte list" where
  "getKey P salt =
     (case ENCRYPTION_KEY P of
        None \<Rightarrow> Inl (Error ''ENCRYPTION_KEY is not defined in environment variables'')
      | Some encryptionKey \<Rightarrow>
          if encryptionKey = []
          then Inl (Error ''ENCRYPTION_KEY is not defined in environment variables'')
          else Inr (pbkdf2Sync P encryptionKey salt))"

definition encrypt :: "process \<Rightarrow> jsstring \<Rightarrow> world \<Rightarrow> (exn + jsstring) \<times> world" where
  "encrypt P text w =
     (let (salt, w1) = randomBytes 64 w in
      case getKey P salt of
        Inl e \<Rightarrow> (Inl e, w1)
      | Inr key \<Rightarrow>
          let (iv, w2) = randomBytes 16 w1;
              (encrypted, tag) = gcm_seal P key iv (utf8_bytes text)
          in (Inr (toHex salt @ colon # toHex iv @ colon # toHex tag @ colon # toHex encrypted),
              w2))"

text \<open>
  \<open>Buffer.from(part, 'hex')\<close> reads the hex digits it finds (\<open>fromHex\<close>), whereas
  \<open>decipher.update(encrypted, 'hex', 'utf8')\<close> first refuses a string of odd length with a
  \<open>TypeError\<close>; the decipher exists by then, so an error of \<open>createDecipheriv\<close> or
  \<open>setAuthTag\<close> comes before it.
\<close>

definition decrypt :: "process \<Rightarrow> jsstring \<Rightarrow> exn + jsstring" where
  "decrypt P encryptedData =
     (let parts = split colon encryptedData in
      if length parts \<noteq> 4 then Inl (Error ''Invalid encrypted data format'')
      else
        let salt = fromHex (parts ! 0);
            iv = fromHex (parts ! 1);
            tag = fromHex (parts ! 2);
            encrypted = parts ! 3
        in case getKey P salt of
             Inl e \<Rightarrow> Inl e
           | Inr key \<Rightarrow>
               (case gcm_open P key iv tag of
                  Inl m \<Rightarrow> Inl (Error m)
                | Inr decipher \<Rightarrow>
                    if odd (length encrypted) then
                      Inl (Error (''The argument '' @ quoted ''encoding''
                                  @ '' is invalid for data of length ''
                                  @ show_nat (length encrypted) @ ''. Received '' @ quoted ''hex''))
                    else
                      (case decipher (fromHex encrypted) of
                         Inl m \<Rightarrow> Inl (Error m)
                       | Inr decrypted \<Rightarrow> Inr (utf8_string decrypted))))"

text \<open>\<open>decrypt(encrypt(text))\<close>, with the error of whichever call throws.\<close>

definition roundtrip :: "process \<Rightarrow> jsstring \<Rightarrow> world \<Rightarrow> exn + jsstring" where
  "roundtrip P text w =
     (case fst (encrypt P text w) of
        Inl e \<Rightarrow> Inl e
      | Inr encryptedData \<Rightarrow> decrypt P encryptedData)"

text \<open>
  Properties of the inputs that the statements below refer to: a string without unpaired
  surrogate code units; a code point that UTF-8 can carry; a master key that is set and
  not empty; and a cipher whose \<open>gcm_open\<close> returns what \<open>gcm_seal\<close> was given, for
  derived keys and 16-byte nonces.
\<close>

fun well_formed :: "jsstring \<Rightarrow> bool" where
  "well_formed [] = True"
| "well_formed (u # us) =
     (if is_high u then (case us of [] \<Rightarrow> False | v # r \<Rightarrow> is_low v \<and> well_formed r)
      else \<not> is_low u \<and> well_formed us)"

definition scalar :: "nat \<Rightarrow> bool" where
  "scalar cp \<longleftrightarrow> cp < 0x110000 \<and> \<not> (0xD800 \<le> cp \<and> cp \<le> 0xDFFF)"

definition key_configured :: "process \<Rightarrow> bool" where
  "key_configured P \<longleftrightarrow> (case ENCRYPTION_KEY P of None \<Rightarrow> False | Some k \<Rightarrow> k \<noteq> [])"

definition aead_correct :: "process \<Rightarrow> bool" where
  "aead_correct P \<longleftrightarrow>
     (\<forall>k salt iv pt. ENCRYPTION_KEY P = Some k \<longrightarrow> length iv = 16 \<longrightarrow>
        (case gcm_open P (pbkdf2Sync P k salt) iv
                (snd (gcm_seal P (pbkdf2Sync P k salt) iv pt)) of
           Inl m \<Rightarrow> False
         | Inr decipher \<Rightarrow>
             decipher (fst (gcm_seal P (pbkdf2Sync P k salt) iv pt)) = Inr pt))"

section \<open>Identity provider client (services/twitchApiService.ts)\<close>

text \<open>
  What \<open>axios\<close> gives back: the response body of a 2xx answer, or a rejection whose
  \<open>error.response\<close> is absent (network failure) or carries the status and, when the
  provider sent one, a body with \<open>message\<close> and \<open>error\<close> fields.
\<close>

record error_body =
  body_message :: "string option"
  body_error :: "string option"

record error_response =
  resp_status :: nat
  resp_data :: "error_body option"

datatype 'a axios = Resolved 'a | Rejected "error_response option"

definition truthy :: "string option \<Rightarrow> bool" where
  "truthy x \<longleftrightarrow> (case x of None \<Rightarrow> False | Some s \<Rightarrow> s \<noteq> [])"

definition or_else :: "string option \<Rightarrow> string option \<Rightarrow> string option" where
  \<comment> \<open>\<open>a || b\<close> on strings that may be absent\<close>
  "or_else a b = (if truthy a then a else b)"

definition or_default :: "string option \<Rightarrow> string \<Rightarrow> string" where
  \<comment> \<open>\<open>a || 'literal'\<close>\<close>
  "or_default a d = (case a of None \<Rightarrow> d | Some s \<Rightarrow> if s = [] then d else s)"

definition response_message :: "error_response option \<Rightarrow> string option" where
  \<comment> \<open>\<open>error.response?.data?.message\<close>\<close>
  "response_message e =
     (case e of
        None \<Rightarrow> None
      | Some r \<Rightarrow> (case resp_data r of None \<Rightarrow> None | Some d \<Rightarrow> body_message d))"

text \<open>
  The bodies of the provider's answers, with the fields that the client reads, typed as the
  provider documents them: the secrets are strings and \<open>expires_in\<close> is a whole number of
  seconds, of any size.
\<close>

datatype scope_field = ScopeArray "string list" | ScopeString string | ScopeAbsent

record token_body =
  access_token :: jsstring
  refresh_token :: jsstring
  expires_in :: int
  scope :: scope_field

record validate_body =
  vb_client_id :: string
  vb_login :: "string option"
  vb_scopes :: "string list option"
  vb_user_id :: "string option"
  vb_expires_in :: int

record device_body =
  device_code :: string
  user_code :: string
  verification_uri :: string
  db_expires_in :: int
  db_interval :: "int option"

text \<open>
  The requests a handler can send to the token endpoint, by grant type, and the provider
  as the answers it gives at the moment of the call.
\<close>

datatype grant =
    ClientCredentials string jsstring
  | DeviceCode string string
  | AuthorizationCode string jsstring string string
  | RefreshToken string jsstring jsstring

record remote_subscription =
  sub_id :: string
  sub_type :: string
  sub_condition :: "(string \<times> string) list"
  sub_callback :: string
  sub_status :: string
  sub_cost :: "int option"

record eventsub_body =
  eb_data :: "remote_subscription list"
  eb_total :: int
  eb_cursor :: "string option"

record twitch =
  token_endpoint :: "grant \<Rightarrow> token_body axios"
  validate_endpoint :: "jsstring \<Rightarrow> validate_body axios"
  device_endpoint :: "string \<Rightarrow> string \<Rightarrow> device_body axios"
  eventsub_get :: "jsstring \<Rightarrow> string \<Rightarrow> string option \<Rightarrow> eventsub_body axios"

record tokenData =
  accessToken :: jsstring
  refreshToken :: jsstring
  expiresIn :: int
  scopes :: "string list"

record validation =
  val_clientId :: string
  val_login :: "string option"
  val_scopes :: "string list"
  val_userId :: "string option"
  val_expiresIn :: int

record deviceFlowData =
  deviceCode :: string
  userCode :: string
  verificationUri :: string
  df_expiresIn :: int
  interval :: int

definition scope_list :: "scope_field \<Rightarrow> string list" where
  "scope_list f =
     (case f of
        ScopeArray xs \<Rightarrow> xs
      | ScopeString s \<Rightarrow> if s = [] then [] else split (CHR '' '') s
      | ScopeAbsent \<Rightarrow> [])"

definition token_result :: "token_body \<Rightarrow> tokenData" where
  "token_result b =
     \<lparr> accessToken = access_token b, refreshToken = refresh_token b,
       expiresIn = expires_in b, scopes = scope_list (scope b) \<rparr>"

definition join :: "string \<Rightarrow> string list \<Rightarrow> string" where
  "join sep xs = (case xs of [] \<Rightarrow> [] | x # r \<Rightarrow> foldl (\<lambda>acc y. acc @ sep @ y) x r)"


definition validateToken :: "twitch \<Rightarrow> jsstring \<Rightarrow> exn + validation" where
  "validateToken T token =
     (case validate_endpoint T token of
        Resolved b \<Rightarrow>
          Inr \<lparr> val_clientId = vb_client_id b,
                val_login = or_else (vb_login b) None,
                val_scopes = (case vb_scopes b of None \<Rightarrow> [] | Some xs \<Rightarrow> xs),
                val_userId = or_else (vb_user_id b) None,
                val_expiresIn = vb_expires_in b \<rparr>
      | Rejected e \<Rightarrow> Inl (Error ''Invalid or expired token''))"

definition startDeviceFlow :: "twitch \<Rightarrow> string \<Rightarrow> string list \<Rightarrow> exn + deviceFlowData" where
  "startDeviceFlow T clientId scs =
     (case device_endpoint T clientId (join '' '' scs) of
        Resolved b \<Rightarrow>
          Inr \<lparr> deviceCode = device_code b, userCode = user_code b,
                verificationUri = verification_uri b, df_expiresIn = db_expires_in b,
                interval = (case db_interval b of None \<Rightarrow> 5 | Some i \<Rightarrow> if i = 0 then 5 else i) \<rparr>
      | Rejected e \<Rightarrow>
          Inl (Error (or_default (response_message e) ''Failed to start device flow'')))"

definition errorType :: "error_body option \<Rightarrow> string option" where
  \<comment> \<open>\<open>error.response.data?.message || error.response.data?.error\<close>\<close>
  "errorType d = (case d of None \<Rightarrow> None | Some b \<Rightarrow> or_else (body_message b) (body_error b))"

definition pollDeviceToken :: "twitch \<Rightarrow> string \<Rightarrow> string \<Rightarrow> exn + tokenData option" where
  "pollDeviceToken T clientId dc =
     (case token_endpoint T (DeviceCode clientId dc) of
        Resolved b \<Rightarrow> Inr (Some (token_result b))
      | Rejected e \<Rightarrow>
          (case e of
             None \<Rightarrow> Inl (Error ''Failed to poll for device token'')
           | Some r \<Rightarrow>
               if resp_status r = 400 then
                 (case errorType (resp_data r) of
                    None \<Rightarrow> Inl (Error ''Failed to poll for device token'')
                  | Some ty \<Rightarrow>
                      if ty = ''authorization_pending'' then Inr None
                      else if ty = ''access_denied'' \<or> ty = ''expired_token''
                      then Inl (Error ty)
                      else if ty = ''slow_down'' then Inr None
                      else Inl (Error ''Failed to poll for device token''))
               else Inl (Error ''Failed to poll for device token'')))"



section \<open>Request handlers: responses and database access\<close>

text \<open>
  A response is a status code and a JSON body. Identifiers are \<open>JNum\<close>, dates are
  \<open>JDate\<close> (the time value whose ISO string is sent), decrypted secrets are \<open>JText\<close>.
  A field whose value is \<open>undefined\<close> is left out of the object, as \<open>res.json\<close> does.
\<close>

datatype json =
    JNull
  | JBool bool
  | JNum int
  | JStr string
  | JText jsstring
  | JDate int
  | JArr "json list"
  | JObj "(string \<times> json) list"

type_synonym response = "nat \<times> json"

definition opt_str :: "string option \<Rightarrow> json" where
  "opt_str x = (case x of None \<Rightarrow> JNull | Some s \<Rightarrow> JStr s)"

definition opt_date :: "int option \<Rightarrow> json" where
  "opt_date x = (case x of None \<Rightarrow> JNull | Some d \<Rightarrow> JDate d)"

definition validation_failed :: "json list \<Rightarrow> response" where
  "validation_failed errors = (400, JObj [(''errors'', JArr errors)])"

definition fail :: "nat \<Rightarrow> string \<Rightarrow> string \<Rightarrow> response" where
  "fail code err msg = (code, JObj [(''error'', JStr err), (''message'', JStr msg)])"

definition catch_message :: "exn \<Rightarrow> string \<Rightarrow> string" where
  \<comment> \<open>\<open>error.message || 'literal'\<close>\<close>
  "catch_message e d = (if message_of e = [] then d else message_of e)"

text \<open>
  A \<open>Date\<close> object holds a time value in milliseconds or is an Invalid Date: \<open>TimeClip\<close>
  gives an Invalid Date beyond 8.64e15 ms on either side of the epoch. The time values stand
  for the numbers that the code computes: with the clock at a time of this era, the
  floating-point sum of the code is the same date, valid or not. \<open>DateTime\<close> is what Prisma does with a
  \<open>Date\<close> given for a \<open>DateTime\<close> column: it throws for an Invalid Date and for a time value
  that cannot be stored, and otherwise passes the value on.
\<close>

datatype jsdate = Date int | InvalidDate

definition TimeClip :: "int \<Rightarrow> jsdate" where
  "TimeClip t = (if abs t \<le> 8640000000000000 then Date t else InvalidDate)"

definition DateTime :: "process \<Rightarrow> jsdate \<Rightarrow> exn + int" where
  "DateTime P d =
     (case d of
        InvalidDate \<Rightarrow> Inl (Error (invalid_date_error P))
      | Date t \<Rightarrow>
          (case timestamp_error P t of
             Some m \<Rightarrow> Inl (Error m)
           | None \<Rightarrow> Inr t))"

text \<open>
  Prisma: \<open>findUnique\<close> by primary key, \<open>create\<close> with a new primary key and both
  timestamps set, \<open>update\<close> and \<open>delete\<close> by primary key. \<open>create\<close> and \<open>update\<close> throw when
  the expiry is refused, and then store nothing. \<open>update\<close> is called on the id of a record
  just read: \<open>refreshed\<close> is that record with the new values, which is what it returns.
\<close>

definition findConfig :: "world \<Rightarrow> ident \<Rightarrow> twitchConfig option" where
  "findConfig w i = find (\<lambda>c. cfg_id c = i) (configs w)"

definition findToken :: "world \<Rightarrow> ident \<Rightarrow> savedToken option" where
  "findToken w i = find (\<lambda>t. tok_id t = i) (tokens w)"

definition fresh :: "ident list \<Rightarrow> ident" where
  "fresh ids = Suc (fold max ids 0)"

definition createToken ::
  "process \<Rightarrow> ident \<Rightarrow> ident \<Rightarrow> string \<Rightarrow> jsstring \<Rightarrow> jsstring option \<Rightarrow> string list
    \<Rightarrow> string option \<Rightarrow> string option \<Rightarrow> string option \<Rightarrow> jsdate \<Rightarrow> world
    \<Rightarrow> exn + savedToken \<times> world" where
  "createToken P uid cid ty access refresh scs chLogin chId nm expiresAt w =
     (case DateTime P expiresAt of
        Inl e \<Rightarrow> Inl e
      | Inr at \<Rightarrow>
          (let t = \<lparr> tok_id = fresh (map tok_id (tokens w)), tok_userId = uid,
                      tok_twitchConfigId = cid, tok_tokenType = ty, tok_accessToken = access,
                      tok_refreshToken = refresh, tok_scopes = scs, tok_channelLogin = chLogin,
                      tok_channelId = chId, tok_name = nm, tok_expiresAt = Some at,
                      tok_createdAt = clock w, tok_updatedAt = clock w \<rparr>
           in Inr (t, w\<lparr>tokens := tokens w @ [t]\<rparr>)))"




definition twitchConfig_select :: "world \<Rightarrow> ident \<Rightarrow> json" where
  \<comment> \<open>\<open>include: { twitchConfig: { select: { id, clientId, name } } }\<close>\<close>
  "twitchConfig_select w i =
     (case findConfig w i of
        None \<Rightarrow> JNull
      | Some c \<Rightarrow>
          JObj [(''id'', JNum (int (cfg_id c))), (''clientId'', JStr (cfg_clientId c)),
                (''name'', opt_str (cfg_name c))])"

definition token_tail :: "world \<Rightarrow> savedToken \<Rightarrow> (string \<times> json) list" where
  "token_tail w t =
     [(''scopes'', JArr (map JStr (tok_scopes t))),
      (''channelLogin'', opt_str (tok_channelLogin t)),
      (''channelId'', opt_str (tok_channelId t)),
      (''name'', opt_str (tok_name t)),
      (''expiresAt'', opt_date (tok_expiresAt t)),
      (''createdAt'', JDate (tok_createdAt t)),
      (''updatedAt'', JDate (tok_updatedAt t)),
      (''twitchConfig'', twitchConfig_select w (tok_twitchConfigId t))]"

definition sanitizedToken :: "world \<Rightarrow> savedToken \<Rightarrow> json" where
  "sanitizedToken w t =
     JObj ([(''id'', JNum (int (tok_id t))), (''tokenType'', JStr (tok_tokenType t))]
           @ token_tail w t)"

definition responseToken :: "world \<Rightarrow> savedToken \<Rightarrow> jsstring \<Rightarrow> jsstring option \<Rightarrow> json" where
  "responseToken w t access refresh =
     JObj ([(''id'', JNum (int (tok_id t))), (''tokenType'', JStr (tok_tokenType t)),
            (''accessToken'', JText access)]
           @ (case refresh of None \<Rightarrow> [] | Some r \<Rightarrow> [(''refreshToken'', JText r)])
           @ token_tail w t)"

section \<open>Token controller (controllers/tokenController.ts)\<close>

definition getAllTokens :: "ident \<Rightarrow> world \<Rightarrow> response" where
  "getAllTokens userId w =
     (let found = sort_key (\<lambda>t. - tok_createdAt t) (filter (\<lambda>t. tok_userId t = userId) (tokens w))
      in (200, JObj [(''tokens'', JArr (map (sanitizedToken w) found))]))"

definition getToken :: "process \<Rightarrow> json list \<Rightarrow> ident \<Rightarrow> ident \<Rightarrow> world \<Rightarrow> response" where
  "getToken P errors userId i w =
     (if errors \<noteq> [] then validation_failed errors
      else case findToken w i of
        None \<Rightarrow> fail 404 ''Not found'' ''Token not found''
      | Some token \<Rightarrow>
          if tok_userId token \<noteq> userId
          then fail 403 ''Forbidden'' ''You do not have permission to access this token''
          else
            (case decrypt P (tok_accessToken token) of
               Inl e \<Rightarrow> fail 500 ''Server error'' ''Failed to retrieve token''
             | Inr access \<Rightarrow>
                 (case tok_refreshToken token of
                    None \<Rightarrow> (200, JObj [(''token'', responseToken w token access None)])
                  | Some r \<Rightarrow>
                      if r = [] then (200, JObj [(''token'', responseToken w token access None)])
                      else
                        (case decrypt P r of
                           Inl e \<Rightarrow> fail 500 ''Server error'' ''Failed to retrieve token''
                         | Inr refresh \<Rightarrow>
                             (200, JObj [(''token'', responseToken w token access (Some refresh))])))))"



definition startUserToken ::
  "twitch \<Rightarrow> json list \<Rightarrow> ident \<Rightarrow> ident \<Rightarrow> string list \<Rightarrow> world \<Rightarrow> response \<times> world" where
  "startUserToken T errors userId twitchConfigId scs w =
     (if errors \<noteq> [] then (validation_failed errors, w)
      else case findConfig w twitchConfigId of
        None \<Rightarrow> (fail 404 ''Not found'' ''Twitch configuration not found'', w)
      | Some twitchConfig \<Rightarrow>
          if cfg_userId twitchConfig \<noteq> userId
          then (fail 403 ''Forbidden'' ''You do not have permission to use this configuration'', w)
          else
            (case startDeviceFlow T (cfg_clientId twitchConfig) scs of
               Inl e \<Rightarrow>
                 (fail 500 ''Server error'' (catch_message e ''Failed to start user token flow''), w)
             | Inr d \<Rightarrow>
                 ((200,
                   JObj [(''deviceCode'', JStr (deviceCode d)), (''userCode'', JStr (userCode d)),
                         (''verificationUri'', JStr (verificationUri d)),
                         (''expiresIn'', JNum (df_expiresIn d)), (''interval'', JNum (interval d))]),
                  w)))"

definition poll_catch :: "exn \<Rightarrow> response" where
  "poll_catch e =
     (if message_of e = ''access_denied'' then
        (403, JObj [(''status'', JStr ''denied''), (''error'', JStr ''Access denied''),
                    (''message'', JStr ''User denied the authorization request'')])
      else if message_of e = ''expired_token'' then
        (400, JObj [(''status'', JStr ''expired''), (''error'', JStr ''Token expired''),
                    (''message'', JStr ''The device code has expired. Please start over.'')])
      else fail 500 ''Server error'' (catch_message e ''Failed to poll for user token''))"

definition pollUserToken ::
  "process \<Rightarrow> twitch \<Rightarrow> json list \<Rightarrow> ident \<Rightarrow> ident \<Rightarrow> string \<Rightarrow> string option \<Rightarrow> world
    \<Rightarrow> response \<times> world" where
  "pollUserToken P T errors userId twitchConfigId dc name w =
     (if errors \<noteq> [] then (validation_failed errors, w)
      else case findConfig w twitchConfigId of
        None \<Rightarrow> (fail 404 ''Not found'' ''Twitch configuration not found'', w)
      | Some twitchConfig \<Rightarrow>
          if cfg_userId twitchConfig \<noteq> userId
          then (fail 403 ''Forbidden'' ''You do not have permission to use this configuration'', w)
          else
            (case pollDeviceToken T (cfg_clientId twitchConfig) dc of
               Inl e \<Rightarrow> (poll_catch e, w)
             | Inr None \<Rightarrow> ((200, JObj [(''status'', JStr ''pending'')]), w)
             | Inr (Some td) \<Rightarrow>
                 (case validateToken T (accessToken td) of
                    Inl e \<Rightarrow> (poll_catch e, w)
                  | Inr v \<Rightarrow>
                      (let expiresAt = TimeClip (clock w + expiresIn td * 1000) in
                       case encrypt P (accessToken td) w of
                         (Inl e, w1) \<Rightarrow> (poll_catch e, w1)
                       | (Inr encryptedAccessToken, w1) \<Rightarrow>
                           (case encrypt P (refreshToken td) w1 of
                              (Inl e, w2) \<Rightarrow> (poll_catch e, w2)
                            | (Inr encryptedRefreshToken, w2) \<Rightarrow>
                                (case createToken P userId twitchConfigId ''user''
                                        encryptedAccessToken (Some encryptedRefreshToken)
                                        (scopes td) (val_login v) (val_userId v)
                                        (or_else name None) expiresAt w2 of
                                   Inl e \<Rightarrow> (poll_catch e, w2)
                                 | Inr (savedToken, w3) \<Rightarrow>
                                     ((201,
                                       JObj [(''status'', JStr ''success''),
                                             (''message'',
                                              JStr ''User access token generated successfully''),
                                             (''token'',
                                              responseToken w3 savedToken (accessToken td)
                                                (Some (refreshToken td)))]),
                                      w3)))))))"











section \<open>Configuration controller (controllers/twitchConfigController.ts)\<close>





section \<open>Webhook reconciliation (controllers/webhookController.ts)\<close>

record sync_counts =
  totalImported :: nat
  totalUpdated :: nat
  totalRemoved :: nat
  totalSubscriptions :: nat
  configsSynced :: "string list"

definition cost_or_zero :: "int option \<Rightarrow> int" where
  \<comment> \<open>\<open>sub.cost || 0\<close>\<close>
  "cost_or_zero x = (case x of None \<Rightarrow> 0 | Some n \<Rightarrow> n)"

text \<open>
  Prisma on the webhook table: \<open>create\<close> throws when the subscription id is already in the
  table (the column has a unique index, over all users); \<open>updateMany\<close> changes every row
  of the user with the subscription id; \<open>delete\<close> by primary key throws when there is no
  such row. What is thrown here is caught by the sub-pass and only written to the log: the
  messages abbreviate Prisma's.
\<close>

definition createWebhookRow :: "ident \<Rightarrow> remote_subscription \<Rightarrow> world \<Rightarrow> exn + world" where
  "createWebhookRow userId sub w =
     (if sub_id sub \<in> set (map wh_subscriptionId (webhooks w))
      then Inl (Error ''Unique constraint failed on the fields: (subscriptionId)'')
      else Inr (w\<lparr>webhooks := webhooks w @
                  [\<lparr> wh_id = fresh (map wh_id (webhooks w)), wh_userId = userId,
                      wh_subscriptionId = sub_id sub, wh_type = sub_type sub,
                      wh_condition = sub_condition sub, wh_callbackUrl = sub_callback sub,
                      wh_status = sub_status sub, wh_cost = cost_or_zero (sub_cost sub),
                      wh_createdAt = clock w, wh_updatedAt = clock w \<rparr>]\<rparr>))"

definition overwrite :: "remote_subscription \<Rightarrow> int \<Rightarrow> webhook \<Rightarrow> webhook" where
  "overwrite sub now h =
     h\<lparr>wh_status := sub_status sub, wh_condition := sub_condition sub,
       wh_cost := cost_or_zero (sub_cost sub), wh_updatedAt := now\<rparr>"

definition updateManyWebhooks :: "ident \<Rightarrow> remote_subscription \<Rightarrow> world \<Rightarrow> world" where
  "updateManyWebhooks userId sub w =
     w\<lparr>webhooks :=
         map (\<lambda>h. if wh_userId h = userId \<and> wh_subscriptionId h = sub_id sub
                   then overwrite sub (clock w) h else h)
             (webhooks w)\<rparr>"

definition deleteWebhookRow :: "ident \<Rightarrow> world \<Rightarrow> exn + world" where
  "deleteWebhookRow i w =
     (if i \<in> set (map wh_id (webhooks w))
      then Inr (w\<lparr>webhooks := filter (\<lambda>h. wh_id h \<noteq> i) (webhooks w)\<rparr>)
      else Inl (Error ''Record to delete does not exist.''))"

text \<open>
  The two loops of one sub-pass. A throw leaves the loop with the counters and the rows
  as they are at that moment: the result is the exception, if any, and the state reached.
\<close>

fun importLoop ::
  "ident \<Rightarrow> string list \<Rightarrow> remote_subscription list \<Rightarrow> sync_counts \<times> world
    \<Rightarrow> exn option \<times> sync_counts \<times> world" where
  "importLoop userId localSubscriptionIds [] st = (None, st)"
| "importLoop userId localSubscriptionIds (sub # subs) (c, w) =
     (if sub_id sub \<notin> set localSubscriptionIds then
        (case createWebhookRow userId sub w of
           Inl e \<Rightarrow> (Some e, c, w)
         | Inr w1 \<Rightarrow>
             importLoop userId localSubscriptionIds subs
               (c\<lparr>totalImported := totalImported c + 1\<rparr>, w1))
      else
        importLoop userId localSubscriptionIds subs
          (c\<lparr>totalUpdated := totalUpdated c + 1\<rparr>, updateManyWebhooks userId sub w))"

fun removeLoop ::
  "string list \<Rightarrow> webhook list \<Rightarrow> sync_counts \<times> world \<Rightarrow> exn option \<times> sync_counts \<times> world" where
  "removeLoop remoteSubscriptionIds [] st = (None, st)"
| "removeLoop remoteSubscriptionIds (localWebhook # rest) (c, w) =
     (if wh_subscriptionId localWebhook \<notin> set remoteSubscriptionIds then
        (case deleteWebhookRow (wh_id localWebhook) w of
           Inl e \<Rightarrow> (Some e, c, w)
         | Inr w1 \<Rightarrow>
             removeLoop remoteSubscriptionIds rest (c\<lparr>totalRemoved := totalRemoved c + 1\<rparr>, w1))
      else removeLoop remoteSubscriptionIds rest (c, w))"

definition syncToken ::
  "process \<Rightarrow> twitch \<Rightarrow> ident \<Rightarrow> savedToken \<Rightarrow> sync_counts \<times> world \<Rightarrow> sync_counts \<times> world" where
  \<comment> \<open>the body of \<open>for (const token of tokens)\<close>, with its \<open>try\<close> and \<open>catch\<close>\<close>
  "syncToken P T userId token st =
     (case st of (c, w) \<Rightarrow>
        (case decrypt P (tok_accessToken token) of
           Inl e \<Rightarrow> (c, w)
         | Inr access \<Rightarrow>
             (case findConfig w (tok_twitchConfigId token) of
                None \<Rightarrow> (c, w)
              | Some twitchConfig \<Rightarrow>
                  (case eventsub_get T access (cfg_clientId twitchConfig) None of
                     Rejected e \<Rightarrow> (c, w)
                   | Resolved response \<Rightarrow>
                       (let remoteSubscriptions = eb_data response;
                            c1 = c\<lparr>totalSubscriptions :=
                                      totalSubscriptions c + length remoteSubscriptions,
                                   configsSynced :=
                                      configsSynced c @
                                        [or_default (cfg_name twitchConfig)
                                           (cfg_clientId twitchConfig)]\<rparr>;
                            localWebhooks = filter (\<lambda>h. wh_userId h = userId) (webhooks w);
                            localSubscriptionIds = map wh_subscriptionId localWebhooks
                        in case importLoop userId localSubscriptionIds remoteSubscriptions (c1, w) of
                             (Some e, st1) \<Rightarrow> st1
                           | (None, st1) \<Rightarrow>
                               snd (removeLoop (map sub_id remoteSubscriptions) localWebhooks
                                      st1))))))"

definition no_counts :: sync_counts where
  "no_counts =
     \<lparr> totalImported = 0, totalUpdated = 0, totalRemoved = 0, totalSubscriptions = 0,
       configsSynced = [] \<rparr>"

definition sync_report :: "sync_counts \<Rightarrow> response" where
  "sync_report c =
     (200,
      JObj [(''message'', JStr ''Webhooks synchronized successfully''),
            (''imported'', JNum (int (totalImported c))),
            (''updated'', JNum (int (totalUpdated c))),
            (''removed'', JNum (int (totalRemoved c))),
            (''total'', JNum (int (totalSubscriptions c))),
            (''configsSynced'', JStr (join '', '' (configsSynced c)))])"

definition app_tokens :: "ident \<Rightarrow> ident option \<Rightarrow> world \<Rightarrow> savedToken list" where
  \<comment> \<open>\<open>findMany\<close> of the user's \<open>app\<close> tokens, of one configuration when \<open>configId\<close> is given\<close>
  "app_tokens userId configId w =
     filter (\<lambda>t. tok_userId t = userId \<and> tok_tokenType t = ''app''
                  \<and> (case configId of None \<Rightarrow> True | Some c \<Rightarrow> tok_twitchConfigId t = c))
       (tokens w)"

definition syncWebhooks ::
  "process \<Rightarrow> twitch \<Rightarrow> ident \<Rightarrow> ident option \<Rightarrow> world \<Rightarrow> response \<times> world" where
  "syncWebhooks P T userId configId w =
     (let toks = app_tokens userId configId w in
      if toks = [] then
        (fail 404 ''Not found''
           (case configId of
              Some c \<Rightarrow> ''No app token found for this configuration.''
            | None \<Rightarrow> ''No app tokens found. Create an app token first to sync subscriptions.''),
         w)
      else
        (case fold (syncToken P T userId) toks (no_counts, w) of
           (c, w1) \<Rightarrow> (sync_report c, w1)))"

text \<open>
  The spec's fetch of the remote list, in its words: follow the provider's pages,
  accumulating, until the provider signals no further page. \<open>get\<close> is the list request as
  a function of the cursor; the first argument bounds the number of pages.
\<close>

fun spec_full_list ::
  "nat \<Rightarrow> (string option \<Rightarrow> eventsub_body axios) \<Rightarrow> string option
    \<Rightarrow> remote_subscription list option" where
  "spec_full_list 0 get cursor = None"
| "spec_full_list (Suc n) get cursor =
     (case get cursor of
        Rejected e \<Rightarrow> None
      | Resolved page \<Rightarrow>
          (case eb_cursor page of
             None \<Rightarrow> Some (eb_data page)
           | Some after \<Rightarrow>
               (case spec_full_list n get (Some after) of
                  None \<Rightarrow> None
                | Some later \<Rightarrow> Some (eb_data page @ later))))"

text \<open>
  Conditions on a sub-pass that the statements below refer to. \<open>remote_list\<close> is the list
  the sub-pass of a token works with, when it gets one. \<open>db_ok\<close>: primary keys and
  subscription ids of the webhook table are unique, as its indexes enforce. \<open>importable\<close>:
  the remote list has no id twice and none that a row of another user holds, so that no
  \<open>create\<close> of the sub-pass throws.
\<close>

definition remote_list ::
  "process \<Rightarrow> twitch \<Rightarrow> world \<Rightarrow> savedToken \<Rightarrow> remote_subscription list option" where
  "remote_list P T w token =
     (case decrypt P (tok_accessToken token) of
        Inl e \<Rightarrow> None
      | Inr access \<Rightarrow>
          (case findConfig w (tok_twitchConfigId token) of
             None \<Rightarrow> None
           | Some twitchConfig \<Rightarrow>
               (case eventsub_get T access (cfg_clientId twitchConfig) None of
                  Rejected e \<Rightarrow> None
                | Resolved response \<Rightarrow> Some (eb_data response))))"

definition local_rows :: "ident \<Rightarrow> world \<Rightarrow> webhook list" where
  "local_rows userId w = filter (\<lambda>h. wh_userId h = userId) (webhooks w)"

definition foreign_rows :: "ident \<Rightarrow> world \<Rightarrow> webhook list" where
  "foreign_rows userId w = filter (\<lambda>h. wh_userId h \<noteq> userId) (webhooks w)"

definition row_key :: "webhook \<Rightarrow> ident \<times> ident \<times> string" where
  \<comment> \<open>the columns that no update of a sub-pass changes\<close>
  "row_key h = (wh_id h, wh_userId h, wh_subscriptionId h)"

definition mirrors :: "remote_subscription \<Rightarrow> webhook \<Rightarrow> bool" where
  \<comment> \<open>the row carries the status, condition and cost of the remote copy\<close>
  "mirrors s h \<longleftrightarrow>
     wh_status h = sub_status s \<and> wh_condition h = sub_condition s
     \<and> wh_cost h = cost_or_zero (sub_cost s)"

definition db_ok :: "world \<Rightarrow> bool" where
  "db_ok w \<longleftrightarrow>
     distinct (map wh_id (webhooks w)) \<and> distinct (map wh_subscriptionId (webhooks w))"

definition importable :: "ident \<Rightarrow> world \<Rightarrow> remote_subscription list \<Rightarrow> bool" where
  "importable userId w R \<longleftrightarrow>
     distinct (map sub_id R)
     \<and> (\<forall>s \<in> set R. sub_id s \<notin> set (map wh_subscriptionId (foreign_rows userId w)))"

text \<open>
  A token record and a configuration with their secret fields blanked, to compare two
  states that differ in the stored secrets only; and the keys of a listed token.
\<close>

definition mask_token :: "savedToken \<Rightarrow> savedToken" where
  "mask_token t = t\<lparr>tok_accessToken := [], tok_refreshToken := None\<rparr>"

definition mask_config :: "twitchConfig \<Rightarrow> twitchConfig" where
  "mask_config c = c\<lparr>cfg_clientSecret := []\<rparr>"

definition listed_keys :: "string list" where
  "listed_keys = [''id'', ''tokenType'', ''scopes'', ''channelLogin'', ''channelId'', ''name'',
                  ''expiresAt'', ''createdAt'', ''updatedAt'', ''twitchConfig'']"

definition object_keys :: "json \<Rightarrow> string list" where
  "object_keys j = (case j of JObj fs \<Rightarrow> map fst fs | _ \<Rightarrow> [])"

definition field :: "string \<Rightarrow> json \<Rightarrow> json option" where
  \<comment> \<open>the value of a key of an object, if the object has the key\<close>
  "field k j = (case j of JObj fs \<Rightarrow> map_of fs k | _ \<Rightarrow> None)"

text \<open>
  A caller that repeats the poll request: one request per element of the list, each
  against the provider as it answers at that moment, each starting from the state the
  previous request left.
\<close>

fun polls ::
  "process \<Rightarrow> twitch list \<Rightarrow> ident \<Rightarrow> ident \<Rightarrow> string \<Rightarrow> string option \<Rightarrow> world
    \<Rightarrow> response list \<times> world" where
  "polls P [] userId i dc name w = ([], w)"
| "polls P (T # Ts) userId i dc name w =
     (let (r, w1) = pollUserToken P T [] userId i dc name w;
          (rs, w2) = polls P Ts userId i dc name w1
      in (r # rs, w2))"
text \<open>
  A small process and world to run the definitions on: the cipher reverses the bytes and
  uses key and nonce as the tag, the key derivation appends the salt to the key bytes; the
  database takes every time value from 4713 BC on.
\<close>

definition demo_process :: process where
  "demo_process =
     \<lparr> pbkdf2Sync = (\<lambda>k salt. map of_nat (map unat k) @ salt),
       gcm_seal = (\<lambda>key iv pt. (rev pt, take 16 (iv @ key))),
       gcm_open = (\<lambda>key iv tag.
          if iv = [] then Inl ''Invalid initialization vector''
          else Inr (\<lambda>ct. if tag = take 16 (iv @ key) then Inr (rev ct)
                          else Inl ''Unsupported state or unable to authenticate data'')),
       ENCRYPTION_KEY = Some (js ''k''),
       TWITCH_REDIRECT_URI = None,
       LocalTime = (\<lambda>t. t),
       UTC = (\<lambda>t. t),
       URLSearchParams = (\<lambda>ps. concat (map (\<lambda>(k, v). k @ ''='' @ v @ ''&'') ps)),
       invalid_date_error = ''Provided Date object is invalid. Expected Date.'',
       timestamp_error = (\<lambda>t. if t < - 210866803200000 then Some ''timestamp out of range''
                               else None) \<rparr>"

definition demo_config :: twitchConfig where
  \<comment> \<open>owned by user 7; the stored secret is \<open>shh\<close> under \<open>demo_process\<close>\<close>
  "demo_config =
     \<lparr> cfg_id = 1, cfg_userId = 7, cfg_clientId = ''abc123'',
       cfg_clientSecret = js '':01:016b:686873'', cfg_name = Some ''main'',
       cfg_createdAt = 0, cfg_updatedAt = 0 \<rparr>"

definition demo_world :: world where
  "demo_world =
     \<lparr> configs = [demo_config], tokens = [], webhooks = [], clock = 1000,
       tape = (\<lambda>i. of_nat i), tpos = 0 \<rparr>"

definition rejection :: "nat \<Rightarrow> string \<Rightarrow> 'a axios" where
  \<comment> \<open>a provider answer with this status and \<open>message\<close>\<close>
  "rejection code msg =
     Rejected (Some \<lparr> resp_status = code,
                      resp_data = Some \<lparr> body_message = Some msg, body_error = None \<rparr> \<rparr>)"

definition demo_token_body :: token_body where
  "demo_token_body =
     \<lparr> access_token = js ''tok_1'', refresh_token = js ''ref_1'', expires_in = 3600,
       scope = ScopeString ''user:read:email chat:read'' \<rparr>"

definition demo_validate_body :: validate_body where
  "demo_validate_body =
     \<lparr> vb_client_id = ''abc123'', vb_login = Some ''streamer'',
       vb_scopes = Some [''user:read:email'', ''chat:read''], vb_user_id = Some ''4242'',
       vb_expires_in = 3600 \<rparr>"

definition answering :: "token_body axios \<Rightarrow> twitch" where
  \<comment> \<open>a provider that gives this answer at the token endpoint\<close>
  "answering a =
     \<lparr> token_endpoint = (\<lambda>g. a),
       validate_endpoint = (\<lambda>t. Resolved demo_validate_body),
       device_endpoint = (\<lambda>c s. Rejected None),
       eventsub_get = (\<lambda>t c after. Rejected None) \<rparr>"


definition demo_user_token :: savedToken where
  \<comment> \<open>access secret \<open>tok_0\<close> and refresh secret \<open>ref_0\<close> under \<open>demo_process\<close>\<close>
  "demo_user_token =
     \<lparr> tok_id = 5, tok_userId = 7, tok_twitchConfigId = 1, tok_tokenType = ''user'',
       tok_accessToken = js '':01:016b:305f6b6f74'',
       tok_refreshToken = Some (js '':01:016b:305f666572''),
       tok_scopes = [''chat:read''], tok_channelLogin = Some ''streamer'',
       tok_channelId = Some ''4242'', tok_name = None, tok_expiresAt = Some 500,
       tok_createdAt = 100, tok_updatedAt = 100 \<rparr>"

definition demo_app_token :: savedToken where
  \<comment> \<open>access secret \<open>app_0\<close> under \<open>demo_process\<close>\<close>
  "demo_app_token =
     \<lparr> tok_id = 6, tok_userId = 7, tok_twitchConfigId = 1, tok_tokenType = ''app'',
       tok_accessToken = js '':01:016b:305f707061'', tok_refreshToken = None,
       tok_scopes = [], tok_channelLogin = None, tok_channelId = None,
       tok_name = Some ''sync'', tok_expiresAt = Some 900, tok_createdAt = 200,
       tok_updatedAt = 200 \<rparr>"

definition stored_world :: world where
  "stored_world = demo_world\<lparr>tokens := [demo_user_token, demo_app_token]\<rparr>"

text \<open>
  For the reconciliation: a remote subscription and a local row of user 7 by provider id,
  a page of the list endpoint, a provider whose list endpoint answers by client id and
  cursor, a second configuration of user 7 with its own \<open>app\<close> token, and two worlds.
\<close>

definition demo_sub :: "string \<Rightarrow> remote_subscription" where
  "demo_sub i =
     \<lparr> sub_id = i, sub_type = ''stream.online'',
       sub_condition = [(''broadcaster_user_id'', ''4242'')],
       sub_callback = ''https://example.org/hook'', sub_status = ''enabled'',
       sub_cost = Some 1 \<rparr>"

definition demo_row :: "ident \<Rightarrow> string \<Rightarrow> webhook" where
  "demo_row n i =
     \<lparr> wh_id = n, wh_userId = 7, wh_subscriptionId = i, wh_type = ''stream.online'',
       wh_condition = [], wh_callbackUrl = ''https://example.org/hook'',
       wh_status = ''webhook_callback_verification_pending'', wh_cost = 0,
       wh_createdAt = 300, wh_updatedAt = 300 \<rparr>"

definition page :: "remote_subscription list \<Rightarrow> string option \<Rightarrow> eventsub_body" where
  "page subs cur = \<lparr> eb_data = subs, eb_total = int (length subs), eb_cursor = cur \<rparr>"

definition listing :: "(string \<Rightarrow> string option \<Rightarrow> eventsub_body) \<Rightarrow> twitch" where
  "listing pages =
     \<lparr> token_endpoint = (\<lambda>g. Rejected None),
       validate_endpoint = (\<lambda>t. Resolved demo_validate_body),
       device_endpoint = (\<lambda>c s. Rejected None),
       eventsub_get = (\<lambda>t c after. Resolved (pages c after)) \<rparr>"

definition one_page :: twitch where
  \<comment> \<open>\<open>sub-a\<close> and \<open>sub-b\<close> on a single page\<close>
  "one_page = listing (\<lambda>c after. page [demo_sub ''sub-a'', demo_sub ''sub-b''] None)"

definition two_pages :: twitch where
  \<comment> \<open>\<open>sub-a\<close> on the first page, \<open>sub-b\<close> on the page after cursor \<open>p2\<close>\<close>
  "two_pages =
     listing (\<lambda>c after.
       case after of
         None \<Rightarrow> page [demo_sub ''sub-a''] (Some ''p2'')
       | Some cur \<Rightarrow> page [demo_sub ''sub-b''] None)"

definition first_page :: twitch where
  \<comment> \<open>answers every request with the first page of \<open>two_pages\<close>\<close>
  "first_page = listing (\<lambda>c after. page [demo_sub ''sub-a''] (Some ''p2''))"




definition sync_world :: world where
  \<comment> \<open>one configuration with its \<open>app\<close> token; local rows for \<open>sub-b\<close> and \<open>sub-c\<close>\<close>
  "sync_world =
     demo_world\<lparr>tokens := [demo_app_token],
                webhooks := [demo_row 3 ''sub-b'', demo_row 4 ''sub-c'']\<rparr>"


text \<open>
  For the failures of a poll and of a refresh: a provider that grants the token but
  rejects its validation, a grant whose lifetime leads beyond the last valid date, and a
  process without the master key.
\<close>

definition rejecting_validation :: "token_body axios \<Rightarrow> twitch" where
  "rejecting_validation a = (answering a)\<lparr>validate_endpoint := (\<lambda>t. Rejected None)\<rparr>"

definition endless_token_body :: token_body where
  "endless_token_body = demo_token_body\<lparr>expires_in := 10000000000000000\<rparr>"

definition keyless_process :: process where
  "keyless_process = demo_process\<lparr>ENCRYPTION_KEY := None\<rparr>"




section \<open>Codec: encodings\<close>

lemma dec1: "b0 < 0x80 \<Longrightarrow> utf8_decode (b0 # rest) = b0 # utf8_decode rest"
  by simp

lemma dec2:
  "0xC2 \<le> b0 \<Longrightarrow> b0 \<le> 0xDF \<Longrightarrow> cont b1 \<Longrightarrow>
   utf8_decode (b0 # b1 # rest) = ((b0 - 0xC0) * 64 + (b1 - 0x80)) # utf8_decode rest"
  by simp

lemma dec3:
  "0xE0 \<le> b0 \<Longrightarrow> b0 \<le> 0xEF \<Longrightarrow> second_ok b0 b1 \<Longrightarrow> cont b2 \<Longrightarrow>
   utf8_decode (b0 # b1 # b2 # rest) =
     ((b0 - 0xE0) * 4096 + (b1 - 0x80) * 64 + (b2 - 0x80)) # utf8_decode rest"
  by simp

lemma dec4:
  "0xF0 \<le> b0 \<Longrightarrow> b0 \<le> 0xF4 \<Longrightarrow> second_ok b0 b1 \<Longrightarrow> cont b2 \<Longrightarrow> cont b3 \<Longrightarrow>
   utf8_decode (b0 # b1 # b2 # b3 # rest) =
     ((b0 - 0xF0) * 262144 + (b1 - 0x80) * 4096 + (b2 - 0x80) * 64 + (b3 - 0x80))
       # utf8_decode rest"
  by simp

lemma three_digits:
  fixes cp :: nat
  shows "cp div 4096 * 4096 + (cp div 64) mod 64 * 64 + cp mod 64 = cp"
proof -
  define q where "q = cp div 64"
  have "cp div 4096 = q div 64"
    unfolding q_def by (simp add: div_mult2_eq)
  moreover have "q div 64 * 64 + q mod 64 = q"
    by simp
  moreover have "q * 64 + cp mod 64 = cp"
    unfolding q_def by simp
  ultimately show ?thesis
    unfolding q_def [symmetric] by linarith
qed

lemma four_digits:
  fixes cp :: nat
  shows "cp div 262144 * 262144 + (cp div 4096) mod 64 * 4096 + (cp div 64) mod 64 * 64
           + cp mod 64 = cp"
proof -
  define r where "r = cp div 4096"
  have "cp div 262144 = r div 64"
    unfolding r_def by (simp add: div_mult2_eq)
  moreover have "r div 64 * 64 + r mod 64 = r"
    by simp
  moreover have "r * 4096 + (cp div 64) mod 64 * 64 + cp mod 64 = cp"
    unfolding r_def using three_digits [of cp] by simp
  ultimately show ?thesis
    unfolding r_def [symmetric] by linarith
qed

lemma second_ok3_digits:
  "d \<le> 15 \<Longrightarrow> m \<le> 63 \<Longrightarrow> (d = 0 \<Longrightarrow> 32 \<le> m) \<Longrightarrow> (d = 13 \<Longrightarrow> m \<le> 31) \<Longrightarrow>
   second_ok (0xE0 + d) (0x80 + m)"
  by (auto simp: second_ok_def cont_def)

lemma second_ok4_digits:
  "d \<le> 4 \<Longrightarrow> m \<le> 63 \<Longrightarrow> (d = 0 \<Longrightarrow> 16 \<le> m) \<Longrightarrow> (d = 4 \<Longrightarrow> m \<le> 15) \<Longrightarrow>
   second_ok (0xF0 + d) (0x80 + m)"
  by (auto simp: second_ok_def cont_def)

lemma second_ok3:
  assumes "0x800 \<le> cp" "cp < 0x10000" "\<not> (0xD800 \<le> cp \<and> cp \<le> 0xDFFF)"
  shows "second_ok (0xE0 + cp div 4096) (0x80 + (cp div 64) mod 64)"
proof -
  define q where "q = cp div 64"
  have d: "cp div 4096 = q div 64"
    unfolding q_def by (simp add: div_mult2_eq)
  have lo: "32 \<le> q" and hi: "q < 1024" and sur: "\<not> (864 \<le> q \<and> q \<le> 895)"
    using assms unfolding q_def by linarith+
  have "q div 64 = 0 \<Longrightarrow> 32 \<le> q mod 64"
  proof -
    assume "q div 64 = 0"
    then have "q mod 64 = q" using div_mult_mod_eq [of q 64] by simp
    then show ?thesis using lo by simp
  qed
  moreover have "q div 64 = 13 \<Longrightarrow> q mod 64 \<le> 31"
  proof -
    assume "q div 64 = 13"
    then have "13 * 64 + q mod 64 = q" using div_mult_mod_eq [of q 64] by simp
    then show ?thesis using sur by linarith
  qed
  moreover have "q mod 64 \<le> 63"
    by simp
  moreover have "q div 64 \<le> 15"
    using hi by linarith
  ultimately show ?thesis
    unfolding d q_def [symmetric] by (intro second_ok3_digits)
qed

lemma second_ok4:
  assumes "0x10000 \<le> cp" "cp < 0x110000"
  shows "second_ok (0xF0 + cp div 262144) (0x80 + (cp div 4096) mod 64)"
proof -
  define r where "r = cp div 4096"
  have d: "cp div 262144 = r div 64"
    unfolding r_def by (simp add: div_mult2_eq)
  have lo: "16 \<le> r" and hi: "r < 272"
    using assms unfolding r_def by linarith+
  have "r div 64 = 0 \<Longrightarrow> 16 \<le> r mod 64"
  proof -
    assume "r div 64 = 0"
    then have "r mod 64 = r" using div_mult_mod_eq [of r 64] by simp
    then show ?thesis using lo by simp
  qed
  moreover have "r div 64 = 4 \<Longrightarrow> r mod 64 \<le> 15"
  proof -
    assume "r div 64 = 4"
    then have "4 * 64 + r mod 64 = r" using div_mult_mod_eq [of r 64] by simp
    then show ?thesis using hi by linarith
  qed
  moreover have "r mod 64 \<le> 63"
    by simp
  moreover have "r div 64 \<le> 4"
    using hi by linarith
  ultimately show ?thesis
    unfolding d r_def [symmetric] by (intro second_ok4_digits)
qed

lemma decode_encode_cp:
  assumes "scalar cp"
  shows "utf8_decode (encode_cp cp @ rest) = cp # utf8_decode rest"
proof -
  consider "cp < 0x80" | "0x80 \<le> cp" "cp < 0x800" | "0x800 \<le> cp" "cp < 0x10000"
    | "0x10000 \<le> cp" "cp < 0x110000"
    using assms unfolding scalar_def by linarith
  then show ?thesis
  proof cases
    case 1
    then show ?thesis by (simp add: encode_cp_def)
  next
    case 2
    have e: "encode_cp cp = [0xC0 + cp div 64, 0x80 + cp mod 64]"
      using 2 by (simp add: encode_cp_def)
    have "0xC2 \<le> 0xC0 + cp div 64" "0xC0 + cp div 64 \<le> 0xDF" "cont (0x80 + cp mod 64)"
      using 2 unfolding cont_def by linarith+
    from dec2 [OF this] show ?thesis unfolding e by simp
  next
    case 3
    have e: "encode_cp cp = [0xE0 + cp div 4096, 0x80 + (cp div 64) mod 64, 0x80 + cp mod 64]"
      using 3 by (simp add: encode_cp_def)
    have s: "second_ok (0xE0 + cp div 4096) (0x80 + (cp div 64) mod 64)"
      using second_ok3 3 assms unfolding scalar_def by blast
    have "0xE0 \<le> 0xE0 + cp div 4096" "0xE0 + cp div 4096 \<le> 0xEF"
      "cont (0x80 + cp mod 64)"
      using 3 unfolding cont_def by linarith+
    from dec3 [OF this(1,2) s this(3)] show ?thesis
      unfolding e using three_digits [of cp] by simp
  next
    case 4
    have e: "encode_cp cp = [0xF0 + cp div 262144, 0x80 + (cp div 4096) mod 64,
         0x80 + (cp div 64) mod 64, 0x80 + cp mod 64]"
      using 4 by (simp add: encode_cp_def)
    have s: "second_ok (0xF0 + cp div 262144) (0x80 + (cp div 4096) mod 64)"
      using second_ok4 4 by blast
    have "0xF0 \<le> 0xF0 + cp div 262144" "0xF0 + cp div 262144 \<le> 0xF4"
      "cont (0x80 + (cp div 64) mod 64)" "cont (0x80 + cp mod 64)"
      using 4 unfolding cont_def by linarith+
    from dec4 [OF this(1,2) s this(3,4)] show ?thesis
      unfolding e using four_digits [of cp] by simp
  qed
qed

lemma encode_cp_bytes:
  assumes "scalar cp" "b \<in> set (encode_cp cp)"
  shows "b < 256"
proof -
  have "cp < 0x110000"
    using assms(1) unfolding scalar_def by simp
  then have "cp div 262144 \<le> 4" "cp < 0x10000 \<Longrightarrow> cp div 4096 \<le> 15"
    "cp < 0x800 \<Longrightarrow> cp div 64 \<le> 31"
    by linarith+
  moreover have "cp mod 64 \<le> 63" "(cp div 64) mod 64 \<le> 63" "(cp div 4096) mod 64 \<le> 63"
    by simp_all
  ultimately show ?thesis
    using assms(2) unfolding encode_cp_def by (fastforce split: if_splits)
qed

lemma decode_encode_all:
  "\<forall>cp \<in> set cps. scalar cp \<Longrightarrow> utf8_decode (concat (map encode_cp cps)) = cps"
  by (induction cps) (simp_all add: decode_encode_cp)


lemma unat_of_nat_byte: "n < 256 \<Longrightarrow> unat (of_nat n :: byte) = n"
  by (simp add: unat_of_nat)

lemma unat_of_nat_bytes:
  "\<forall>b \<in> set bs. b < 256 \<Longrightarrow> map unat (map of_nat bs :: byte list) = bs"
  by (induction bs) (simp_all add: unat_of_nat_byte)

lemma unat_jschar: "unat (u :: jschar) < 65536"
  using unsigned_less [of u] by simp

lemma units_single: "\<not> is_high u \<Longrightarrow> \<not> is_low u \<Longrightarrow> units (unat u) = [u]"
  using unat_jschar [of u] by (simp add: units_def)

lemma units_pair:
  assumes "is_high u" "is_low v"
  shows "units (0x10000 + (unat u - 0xD800) * 0x400 + (unat v - 0xDC00)) = [u, v]"
proof -
  define h where "h = unat u - 0xD800"
  define l where "l = unat v - 0xDC00"
  have h: "unat u = 0xD800 + h" "h < 0x400" and l: "unat v = 0xDC00 + l" "l < 0x400"
    using assms unfolding is_high_def is_low_def h_def l_def by linarith+
  have "(h * 0x400 + l) div 0x400 = h" "(h * 0x400 + l) mod 0x400 = l"
    using l(2) by simp_all
  then have "units (0x10000 + h * 0x400 + l) = [of_nat (0xD800 + h), of_nat (0xDC00 + l)]"
    unfolding units_def by (simp add: add.assoc)
  moreover have "(of_nat (0xD800 + h) :: jschar) = u"
  proof -
    have "(of_nat (0xD800 + h) :: jschar) = of_nat (unat u)"
      by (simp only: h(1))
    then show ?thesis by simp
  qed
  moreover have "(of_nat (0xDC00 + l) :: jschar) = v"
  proof -
    have "(of_nat (0xDC00 + l) :: jschar) = of_nat (unat v)"
      by (simp only: l(1))
    then show ?thesis by simp
  qed
  ultimately show ?thesis
    unfolding h_def [symmetric] l_def [symmetric] by simp
qed

lemma scalar_single: "\<not> is_high u \<Longrightarrow> \<not> is_low u \<Longrightarrow> scalar (unat u)"
  using unat_jschar [of u] unfolding scalar_def is_high_def is_low_def by linarith

lemma scalar_pair:
  assumes "is_high u" "is_low v"
  shows "scalar (0x10000 + (unat u - 0xD800) * 0x400 + (unat v - 0xDC00))"
proof -
  have "unat u - 0xD800 \<le> 0x3FF" "unat v - 0xDC00 \<le> 0x3FF"
    using assms unfolding is_high_def is_low_def by linarith+
  then show ?thesis
    unfolding scalar_def by linarith
qed

lemma well_formed_code_points:
  "well_formed s \<Longrightarrow> (\<forall>cp \<in> set (code_points s). scalar cp) \<and> concat (map units (code_points s)) = s"
proof (induction s rule: code_points.induct)
  case 1
  then show ?case by simp
next
  case (2 u us)
  show ?case
  proof (cases "is_high u")
    case True
    with "2.prems" obtain v r where us: "us = v # r" and v: "is_low v" and r: "well_formed r"
      by (auto split: list.splits)
    from "2.IH"(1) [OF True us v] r
    have "(\<forall>cp \<in> set (code_points r). scalar cp) \<and> concat (map units (code_points r)) = r"
      by simp
    then show ?thesis
      using True v us scalar_pair [OF True v] units_pair [OF True v] by simp
  next
    case False
    with "2.prems" have l: "\<not> is_low u" and w: "well_formed us"
      by simp_all
    from "2.IH"(4) [OF False l] w
    have "(\<forall>cp \<in> set (code_points us). scalar cp) \<and> concat (map units (code_points us)) = us"
      by simp
    then show ?thesis
      using False l scalar_single [OF False l] units_single [OF False l] by simp
  qed
qed

lemma utf8_roundtrip: "well_formed s \<Longrightarrow> utf8_string (utf8_bytes s) = s"
proof -
  assume w: "well_formed s"
  let ?cps = "code_points s"
  have sc: "\<forall>cp \<in> set ?cps. scalar cp" and un: "concat (map units ?cps) = s"
    using well_formed_code_points [OF w] by simp_all
  have "\<forall>b \<in> set (concat (map encode_cp ?cps)). b < 256"
    using sc encode_cp_bytes by auto
  then have "map unat (utf8_bytes s) = concat (map encode_cp ?cps)"
    unfolding utf8_bytes_def by (rule unat_of_nat_bytes)
  then show ?thesis
    unfolding utf8_string_def using decode_encode_all [OF sc] un by simp
qed


lemma unat_of_nat_jschar: "m < 65536 \<Longrightarrow> unat (of_nat m :: jschar) = m"
  by (simp add: unat_of_nat)

lemma unat_hexdigit:
  assumes "n < 16"
  shows "unat (hexdigit n) = (if n < 10 then 0x30 + n else 0x61 + (n - 10))"
proof (cases "n < 10")
  case True
  then have "0x30 + n < 65536" by simp
  from unat_of_nat_jschar [OF this] True show ?thesis
    by (simp only: hexdigit_def if_True)
next
  case False
  have "0x61 + (n - 10) < 65536" using assms by simp
  from unat_of_nat_jschar [OF this] False show ?thesis
    by (simp only: hexdigit_def if_False)
qed

lemma hexval_hexdigit: "n < 16 \<Longrightarrow> hexval (hexdigit n) = Some n"
  by (simp add: hexval_def unat_hexdigit Let_def)

lemma hexdigit_not_colon: "n < 16 \<Longrightarrow> hexdigit n \<noteq> colon"
proof
  assume n: "n < 16" and "hexdigit n = colon"
  then have "unat (hexdigit n) = unat colon" by simp
  then show False using n by (simp add: unat_hexdigit colon_def split: if_splits)
qed

lemma toHex_Cons:
  "toHex (b # bs) = hexdigit (unat b div 16) # hexdigit (unat b mod 16) # toHex bs"
  by (simp add: toHex_def)

lemma toHex_Nil: "toHex [] = []"
  by (simp add: toHex_def)

lemma byte_digits: "unat (b :: byte) div 16 < 16" "unat b mod 16 < 16"
proof -
  have "unat b < 256"
    using unsigned_less [of b, where ?'a = nat] by simp
  then show "unat b div 16 < 16" by linarith
  show "unat b mod 16 < 16" by simp
qed

lemma fromHex_toHex: "fromHex (toHex bs) = bs"
proof (induction bs)
  case Nil
  then show ?case by (simp add: toHex_Nil)
next
  case (Cons b bs)
  have "(of_nat (unat b div 16 * 16 + unat b mod 16) :: byte) = of_nat (unat b)"
    by (simp only: div_mult_mod_eq)
  then have "(of_nat (unat b div 16 * 16 + unat b mod 16) :: byte) = b"
    by simp
  then show ?case
    using Cons by (simp add: toHex_Cons hexval_hexdigit byte_digits)
qed

lemma colon_notin_toHex: "colon \<notin> set (toHex bs)"
  using hexdigit_not_colon [symmetric]
  by (induction bs) (auto simp: toHex_Nil toHex_Cons byte_digits)

lemma split_nonempty: "split sep s \<noteq> []"
  by (induction s) (auto split: list.splits)

lemma split_no_sep: "sep \<notin> set a \<Longrightarrow> split sep a = [a]"
  by (induction a) auto

lemma split_append: "sep \<notin> set a \<Longrightarrow> split sep (a @ sep # r) = a # split sep r"
  by (induction a) auto

lemma split_four:
  "sep \<notin> set a \<Longrightarrow> sep \<notin> set b \<Longrightarrow> sep \<notin> set c \<Longrightarrow> sep \<notin> set d \<Longrightarrow>
   split sep (a @ sep # b @ sep # c @ sep # d) = [a, b, c, d]"
  by (simp add: split_append split_no_sep)

lemma getKey_configured:
  "ENCRYPTION_KEY P = Some k \<Longrightarrow> k \<noteq> [] \<Longrightarrow> getKey P salt = Inr (pbkdf2Sync P k salt)"
  by (simp add: getKey_def)

lemma encrypt_configured:
  assumes "ENCRYPTION_KEY P = Some k" "k \<noteq> []"
  shows "encrypt P text w =
    (let salt = map (tape w) [tpos w ..< tpos w + 64];
         iv = map (tape w) [tpos w + 64 ..< tpos w + 80];
         sealed = gcm_seal P (pbkdf2Sync P k salt) iv (utf8_bytes text)
     in (Inr (toHex salt @ colon # toHex iv @ colon # toHex (snd sealed) @ colon
               # toHex (fst sealed)),
         w\<lparr>tpos := tpos w + 80\<rparr>))"
  using assms
  by (simp add: encrypt_def randomBytes_def getKey_configured Let_def case_prod_beta
      add.commute)

lemma length_toHex: "length (toHex bs) = 2 * length bs"
  by (induction bs) (simp_all add: toHex_Cons toHex_Nil)

lemma decrypt_parts:
  assumes "ENCRYPTION_KEY P = Some k" "k \<noteq> []"
  shows "decrypt P (toHex salt @ colon # toHex iv @ colon # toHex tag @ colon # toHex ct) =
    (case gcm_open P (pbkdf2Sync P k salt) iv tag of
       Inl m \<Rightarrow> Inl (Error m)
     | Inr decipher \<Rightarrow>
         (case decipher ct of
            Inl m \<Rightarrow> Inl (Error m) | Inr pt \<Rightarrow> Inr (utf8_string pt)))"
  using assms
  by (simp add: decrypt_def Let_def split_four colon_notin_toHex fromHex_toHex getKey_configured
      length_toHex split: sum.splits)

lemma roundtrip_value:
  assumes "key_configured P" "aead_correct P"
  shows "roundtrip P text w = Inr (utf8_string (utf8_bytes text))"
proof -
  from assms(1) obtain k where k: "ENCRYPTION_KEY P = Some k" "k \<noteq> []"
    by (auto simp: key_configured_def split: option.splits)
  let ?salt = "map (tape w) [tpos w ..< tpos w + 64]"
  let ?iv = "map (tape w) [tpos w + 64 ..< tpos w + 80]"
  let ?key = "pbkdf2Sync P k ?salt"
  have "length ?iv = 16" by simp
  with assms(2) k(1) have
    "case gcm_open P ?key ?iv (snd (gcm_seal P ?key ?iv (utf8_bytes text))) of
       Inl m \<Rightarrow> False
     | Inr decipher \<Rightarrow> decipher (fst (gcm_seal P ?key ?iv (utf8_bytes text))) = Inr (utf8_bytes text)"
    unfolding aead_correct_def by blast
  then obtain decipher where
    "gcm_open P ?key ?iv (snd (gcm_seal P ?key ?iv (utf8_bytes text))) = Inr decipher"
    "decipher (fst (gcm_seal P ?key ?iv (utf8_bytes text))) = Inr (utf8_bytes text)"
    by (auto split: sum.splits)
  then show ?thesis
    unfolding roundtrip_def encrypt_configured [OF k] Let_def
    by (simp add: decrypt_parts [OF k])
qed

lemma js_Cons: "js (c # s) = of_nat (of_char c) # js s"
  by (simp add: js_def)

lemma js_Nil: "js [] = []"
  by (simp add: js_def)

section \<open>Codec: round trip and rejection\<close>

lemma demo_key_configured: "key_configured demo_process"
  by (simp add: key_configured_def demo_process_def js_def)

lemma demo_aead_correct: "aead_correct demo_process"
  by (simp add: aead_correct_def demo_process_def)

lemma tape_segment:
  "map f [a ..< a + 80] = map f [a ..< a + 64] @ map f [a + 64 ..< a + 80]"
proof -
  have "[a ..< a + 64 + 16] = [a ..< a + 64] @ [a + 64 ..< a + 64 + 16]"
    by (rule upt_add_eq_append) simp
  then have "[a ..< a + 80] = [a ..< a + 64] @ [a + 64 ..< a + 80]"
    by (simp add: add.assoc)
  then show ?thesis
    by (simp only: map_append)
qed

lemma toHex_inj: "toHex a = toHex b \<Longrightarrow> a = b"
  by (metis fromHex_toHex)

lemma encrypt_outputs_differ:
  assumes "key_configured P"
    and "map (tape w) [tpos w ..< tpos w + 80] \<noteq> map (tape w) [tpos w + 80 ..< tpos w + 160]"
  shows "fst (encrypt P s w) \<noteq> fst (encrypt P s (snd (encrypt P s w)))"
proof
  from assms(1) obtain k where k: "ENCRYPTION_KEY P = Some k" "k \<noteq> []"
    by (auto simp: key_configured_def split: option.splits)
  let ?s1 = "map (tape w) [tpos w ..< tpos w + 64]"
  let ?i1 = "map (tape w) [tpos w + 64 ..< tpos w + 80]"
  let ?s2 = "map (tape w) [tpos w + 80 ..< tpos w + 144]"
  let ?i2 = "map (tape w) [tpos w + 144 ..< tpos w + 160]"
  assume "fst (encrypt P s w) = fst (encrypt P s (snd (encrypt P s w)))"
  then obtain r1 r2 where
    "toHex ?s1 @ colon # toHex ?i1 @ colon # r1 = toHex ?s2 @ colon # toHex ?i2 @ colon # r2"
    unfolding encrypt_configured [OF k] Let_def by (simp add: add.commute add.assoc)
  then have "split colon (toHex ?s1 @ colon # toHex ?i1 @ colon # r1)
      = split colon (toHex ?s2 @ colon # toHex ?i2 @ colon # r2)"
    by simp
  then have "toHex ?s1 = toHex ?s2 \<and> toHex ?i1 = toHex ?i2"
    by (simp add: split_append colon_notin_toHex)
  then have e: "?s1 = ?s2" "?i1 = ?i2"
    using toHex_inj by blast+
  have "map (tape w) [tpos w ..< tpos w + 80] = ?s1 @ ?i1"
    by (rule tape_segment)
  moreover have "map (tape w) [tpos w + 80 ..< tpos w + 160] = ?s2 @ ?i2"
    using tape_segment [of "tape w" "tpos w + 80"] by (simp add: add.assoc)
  ultimately show False
    using assms(2) e by simp
qed

text \<open>
  Claim C7, amended. With the master key set and a correct cipher: for every string
  \<open>s\<close> without unpaired surrogate code units, \<open>decrypt(encrypt(s))\<close> returns \<open>s\<close>;
  and two successive calls of \<open>encrypt\<close> on the same plaintext give different outputs
  whenever the 80 random bytes (salt and nonce) drawn by the two calls differ.
\<close>

theorem encrypt_decrypt_roundtrip:
  assumes "key_configured P" and "aead_correct P"
  shows "(well_formed s \<longrightarrow> roundtrip P s w = Inr s) \<and>
         (map (tape w) [tpos w ..< tpos w + 80] \<noteq> map (tape w) [tpos w + 80 ..< tpos w + 160]
            \<longrightarrow> fst (encrypt P s w) \<noteq> fst (encrypt P s (snd (encrypt P s w))))"
  using roundtrip_value [OF assms] utf8_roundtrip encrypt_outputs_differ [OF assms(1)]
  by simp

lemma demo_tape_differs:
  "map (tape demo_world) [tpos demo_world ..< tpos demo_world + 80]
    \<noteq> map (tape demo_world) [tpos demo_world + 80 ..< tpos demo_world + 160]"
proof
  assume "map (tape demo_world) [tpos demo_world ..< tpos demo_world + 80]
    = map (tape demo_world) [tpos demo_world + 80 ..< tpos demo_world + 160]"
  then have "map (tape demo_world) [tpos demo_world ..< tpos demo_world + 80] ! 0
    = map (tape demo_world) [tpos demo_world + 80 ..< tpos demo_world + 160] ! 0"
    by simp
  then show False
    by (simp add: demo_world_def)
qed

theorem encrypt_decrypt_roundtrip_witness:
  "key_configured demo_process \<and> aead_correct demo_process \<and> well_formed (js ''tok_1'')
   \<and> roundtrip demo_process (js ''tok_1'') demo_world = Inr (js ''tok_1'')
   \<and> fst (encrypt demo_process (js ''tok_1'') demo_world)
       \<noteq> fst (encrypt demo_process (js ''tok_1'')
                 (snd (encrypt demo_process (js ''tok_1'') demo_world)))"
proof -
  have w: "well_formed (js ''tok_1'')"
    by (simp add: js_def is_high_def is_low_def)
  show ?thesis
    using encrypt_decrypt_roundtrip [OF demo_key_configured demo_aead_correct,
        of "js ''tok_1''" demo_world] w demo_tape_differs demo_key_configured demo_aead_correct
    by simp
qed

text \<open>
  Claim C7 as stated fails for a string that holds an unpaired surrogate: the \<open>'utf8'\<close>
  input encoding replaces it, and \<open>decrypt(encrypt(s))\<close> returns U+FFFD instead.
\<close>

theorem lone_surrogate_counterexample:
  "roundtrip demo_process [0xD800] demo_world = Inr [0xFFFD]
   \<and> roundtrip demo_process [0xD800] demo_world \<noteq> Inr [0xD800]"
proof -
  have "code_points [0xD800] = [0xFFFD]"
    by (simp add: is_high_def)
  then have "utf8_bytes [0xD800] = [0xEF, 0xBF, 0xBD]"
    by (simp add: utf8_bytes_def encode_cp_def)
  then have "utf8_string (utf8_bytes [0xD800]) = [0xFFFD]"
    by (simp add: utf8_string_def cont_def second_ok_def units_def)
  then show ?thesis
    using roundtrip_value [OF demo_key_configured demo_aead_correct, of "[0xD800]" demo_world]
    by simp
qed

text \<open>
  Claim C8. \<open>decrypt\<close> fails with an error whenever its input does not split into
  exactly four colon-separated parts, and, on four parts, whenever the decipher cannot be
  set up, the ciphertext part has an odd number of characters, or the decipher refuses
  the tag for the bytes read from the parts. It returns a plaintext only when the input
  has four parts and the decipher has verified the tag, and then it is the decipher's
  output. A ciphertext whose tag or ciphertext part was replaced is parsed into the same
  salt and nonce and the replaced parts, so the replaced bytes are what is verified.
\<close>

theorem decrypt_fails_on_malformed_or_unauthenticated:
  "(length (split colon x) \<noteq> 4 \<longrightarrow> decrypt P x = Inl (Error ''Invalid encrypted data format''))
   \<and> (\<forall>key m. length (split colon x) = 4
         \<longrightarrow> getKey P (fromHex (split colon x ! 0)) = Inr key
         \<longrightarrow> gcm_open P key (fromHex (split colon x ! 1)) (fromHex (split colon x ! 2)) = Inl m
         \<longrightarrow> decrypt P x = Inl (Error m))
   \<and> (\<forall>key decipher m. length (split colon x) = 4
         \<longrightarrow> getKey P (fromHex (split colon x ! 0)) = Inr key
         \<longrightarrow> gcm_open P key (fromHex (split colon x ! 1)) (fromHex (split colon x ! 2))
               = Inr decipher
         \<longrightarrow> decipher (fromHex (split colon x ! 3)) = Inl m
         \<longrightarrow> decrypt P x =
               (if odd (length (split colon x ! 3))
                then Inl (Error (''The argument '' @ quoted ''encoding''
                                 @ '' is invalid for data of length ''
                                 @ show_nat (length (split colon x ! 3))
                                 @ ''. Received '' @ quoted ''hex''))
                else Inl (Error m)))
   \<and> (\<forall>p. decrypt P x = Inr p
         \<longrightarrow> length (split colon x) = 4 \<and> even (length (split colon x ! 3))
           \<and> (\<exists>key decipher pt. getKey P (fromHex (split colon x ! 0)) = Inr key
                 \<and> gcm_open P key (fromHex (split colon x ! 1)) (fromHex (split colon x ! 2))
                      = Inr decipher
                 \<and> decipher (fromHex (split colon x ! 3)) = Inr pt
                 \<and> p = utf8_string pt))
   \<and> (colon \<notin> set t \<longrightarrow> colon \<notin> set c
         \<longrightarrow> decrypt P (toHex salt @ colon # toHex iv @ colon # t @ colon # c) =
             (case getKey P salt of
                Inl e \<Rightarrow> Inl e
              | Inr key \<Rightarrow>
                  (case gcm_open P key iv (fromHex t) of
                     Inl m \<Rightarrow> Inl (Error m)
                   | Inr decipher \<Rightarrow>
                       if odd (length c)
                       then Inl (Error (''The argument '' @ quoted ''encoding''
                                        @ '' is invalid for data of length ''
                                        @ show_nat (length c)
                                        @ ''. Received '' @ quoted ''hex''))
                       else
                         (case decipher (fromHex c) of
                            Inl m \<Rightarrow> Inl (Error m)
                          | Inr pt \<Rightarrow> Inr (utf8_string pt)))))"
proof -
  have "colon \<notin> set t \<Longrightarrow> colon \<notin> set c \<Longrightarrow>
      split colon (toHex salt @ colon # toHex iv @ colon # t @ colon # c)
        = [toHex salt, toHex iv, t, c]"
    by (simp add: split_four colon_notin_toHex)
  then show ?thesis
    by (auto simp: decrypt_def Let_def fromHex_toHex split: sum.splits if_splits)
qed

theorem decrypt_fails_on_malformed_or_unauthenticated_witness:
  "length (split colon (js ''abc:def'')) \<noteq> 4
   \<and> decrypt demo_process (js ''abc:def'') = Inl (Error ''Invalid encrypted data format'')
   \<and> length (split colon (js ''00:00:00:00'')) = 4
   \<and> getKey demo_process (fromHex (split colon (js ''00:00:00:00'') ! 0)) = Inr [0x6B, 0]
   \<and> (\<exists>decipher.
        gcm_open demo_process [0x6B, 0] (fromHex (split colon (js ''00:00:00:00'') ! 1))
          (fromHex (split colon (js ''00:00:00:00'') ! 2)) = Inr decipher
      \<and> decipher (fromHex (split colon (js ''00:00:00:00'') ! 3))
          = Inl ''Unsupported state or unable to authenticate data'')
   \<and> decrypt demo_process (js ''00:00:00:00'')
       = Inl (Error ''Unsupported state or unable to authenticate data'')
   \<and> decrypt demo_process (js ''00:00:00:000'')
       = Inl (Error (''The argument '' @ quoted ''encoding''
                     @ '' is invalid for data of length 3. Received '' @ quoted ''hex''))
   \<and> decrypt demo_process (js ''00::00:00'') = Inl (Error ''Invalid initialization vector'')"
proof -
  have a: "split colon (js ''abc:def'') = [js ''abc'', js ''def'']"
    by (simp add: js_Cons js_Nil colon_def)
  have b: "split colon (js ''00:00:00:00'') = [js ''00'', js ''00'', js ''00'', js ''00'']"
    by (simp add: js_Cons js_Nil colon_def)
  have c: "split colon (js ''00:00:00:000'') = [js ''00'', js ''00'', js ''00'', js ''000'']"
    by (simp add: js_Cons js_Nil colon_def)
  have d: "split colon (js ''00::00:00'') = [js ''00'', [], js ''00'', js ''00'']"
    by (simp add: js_Cons js_Nil colon_def)
  have h: "fromHex (js ''00'') = [0]" "fromHex (js ''000'') = [0]" "fromHex [] = []"
    by (simp_all add: js_Cons js_Nil hexval_def)
  have l: "length (js ''00'') = 2" "length (js ''000'') = 3"
    by (simp_all add: js_def)
  have k: "getKey demo_process [0] = Inr [0x6B, 0]"
    by (simp add: getKey_def demo_process_def js_Cons js_Nil)
  let ?d = "\<lambda>ct. if [0] = take 16 ([0] @ [0x6B, 0 :: byte]) then Inr (rev ct)
                else Inl ''Unsupported state or unable to authenticate data''"
  have o: "gcm_open demo_process [0x6B, 0] [0] [0] = Inr ?d"
    "gcm_open demo_process [0x6B, 0] [] [0] = Inl ''Invalid initialization vector''"
    by (simp_all add: demo_process_def)
  have r: "?d [0] = Inl ''Unsupported state or unable to authenticate data''"
    by simp
  have n: "char_of (51 :: nat) = CHR ''3''"
    by code_simp
  show ?thesis
    using decrypt_fails_on_malformed_or_unauthenticated [of "js ''abc:def''" demo_process]
      decrypt_fails_on_malformed_or_unauthenticated [of "js ''00:00:00:00''" demo_process]
      decrypt_fails_on_malformed_or_unauthenticated [of "js ''00:00:00:000''" demo_process]
      decrypt_fails_on_malformed_or_unauthenticated [of "js ''00::00:00''" demo_process]
    unfolding a b c d by (simp add: h k l o n)
qed

section \<open>Device flow: polling\<close>

lemma pollDeviceToken_resolved:
  "token_endpoint T (DeviceCode c d) = Resolved b \<Longrightarrow> pollDeviceToken T c d = Inr (Some (token_result b))"
  by (simp add: pollDeviceToken_def)

lemma pollDeviceToken_rejected:
  "token_endpoint T (DeviceCode c d) = Rejected e \<Longrightarrow>
   pollDeviceToken T c d =
     (case e of
        None \<Rightarrow> Inl (Error ''Failed to poll for device token'')
      | Some r \<Rightarrow>
          if resp_status r = 400 \<and> errorType (resp_data r) \<in> {Some ''authorization_pending'', Some ''slow_down''}
          then Inr None
          else if resp_status r = 400 \<and> errorType (resp_data r) = Some ''access_denied''
          then Inl (Error ''access_denied'')
          else if resp_status r = 400 \<and> errorType (resp_data r) = Some ''expired_token''
          then Inl (Error ''expired_token'')
          else Inl (Error ''Failed to poll for device token''))"
  by (auto simp: pollDeviceToken_def split: option.splits)

lemma pollUserToken_owned:
  "findConfig w c = Some cfg \<Longrightarrow> cfg_userId cfg = uid \<Longrightarrow>
   pollUserToken P T [] uid c dc name w =
     (case pollDeviceToken T (cfg_clientId cfg) dc of
        Inl e \<Rightarrow> (poll_catch e, w)
      | Inr None \<Rightarrow> ((200, JObj [(''status'', JStr ''pending'')]), w)
      | Inr (Some td) \<Rightarrow>
          (case validateToken T (accessToken td) of
             Inl e \<Rightarrow> (poll_catch e, w)
           | Inr v \<Rightarrow>
              (let expiresAt = TimeClip (clock w + expiresIn td * 1000) in
               case encrypt P (accessToken td) w of
                  (Inl e, w1) \<Rightarrow> (poll_catch e, w1)
                | (Inr encryptedAccessToken, w1) \<Rightarrow>
                    (case encrypt P (refreshToken td) w1 of
                       (Inl e, w2) \<Rightarrow> (poll_catch e, w2)
                     | (Inr encryptedRefreshToken, w2) \<Rightarrow>
                         (case createToken P uid c ''user''
                                 encryptedAccessToken (Some encryptedRefreshToken)
                                 (scopes td) (val_login v) (val_userId v)
                                 (or_else name None) expiresAt w2 of
                            Inl e \<Rightarrow> (poll_catch e, w2)
                          | Inr (savedToken, w3) \<Rightarrow>
                              ((201,
                                JObj [(''status'', JStr ''success''),
                                      (''message'',
                                       JStr ''User access token generated successfully''),
                                      (''token'',
                                       responseToken w3 savedToken (accessToken td)
                                         (Some (refreshToken td)))]),
                               w3))))))"
  by (simp add: pollUserToken_def)

text \<open>
  Claim C2. \<open>pollDeviceToken\<close> returns \<open>null\<close> exactly when the provider answers with
  status 400 and error type \<open>authorization_pending\<close> or \<open>slow_down\<close>; on status 400 with
  \<open>access_denied\<close> it throws an error with that message, on \<open>expired_token\<close> an error
  with that other message, and on every other rejection the generic error. The poll
  handler, for a configuration owned by the requester, answers these three outcomes with
  \<open>pending\<close> (200), \<open>denied\<close> (403) and \<open>expired\<close> (400), and leaves the state as it was.
\<close>

theorem pollDeviceToken_outcomes:
  "(pollDeviceToken T c dc = Inr None \<longleftrightarrow>
      (\<exists>r. token_endpoint T (DeviceCode c dc) = Rejected (Some r) \<and> resp_status r = 400
           \<and> (errorType (resp_data r) = Some ''authorization_pending''
                \<or> errorType (resp_data r) = Some ''slow_down'')))
   \<and> (\<forall>r. token_endpoint T (DeviceCode c dc) = Rejected (Some r) \<longrightarrow> resp_status r = 400 \<longrightarrow>
          (errorType (resp_data r) = Some ''access_denied''
             \<longrightarrow> pollDeviceToken T c dc = Inl (Error ''access_denied''))
        \<and> (errorType (resp_data r) = Some ''expired_token''
             \<longrightarrow> pollDeviceToken T c dc = Inl (Error ''expired_token'')))
   \<and> (\<forall>e. token_endpoint T (DeviceCode c dc) = Rejected e \<longrightarrow>
          \<not> (\<exists>r. e = Some r \<and> resp_status r = 400
                \<and> errorType (resp_data r) \<in> {Some ''authorization_pending'', Some ''slow_down'',
                      Some ''access_denied'', Some ''expired_token''}) \<longrightarrow>
          pollDeviceToken T c dc = Inl (Error ''Failed to poll for device token''))
   \<and> (\<forall>cfg. findConfig w i = Some cfg \<longrightarrow> cfg_userId cfg = uid \<longrightarrow> cfg_clientId cfg = c \<longrightarrow>
          (pollDeviceToken T c dc = Inr None
             \<longrightarrow> pollUserToken P T [] uid i dc name w
                   = ((200, JObj [(''status'', JStr ''pending'')]), w))
        \<and> (pollDeviceToken T c dc = Inl (Error ''access_denied'')
             \<longrightarrow> pollUserToken P T [] uid i dc name w
                   = ((403, JObj [(''status'', JStr ''denied''), (''error'', JStr ''Access denied''),
                                  (''message'', JStr ''User denied the authorization request'')]),
                      w))
        \<and> (pollDeviceToken T c dc = Inl (Error ''expired_token'')
             \<longrightarrow> pollUserToken P T [] uid i dc name w
                   = ((400, JObj [(''status'', JStr ''expired''), (''error'', JStr ''Token expired''),
                                  (''message'',
                                   JStr ''The device code has expired. Please start over.'')]),
                      w)))"
proof -
  have 1: "pollDeviceToken T c dc = Inr None \<longleftrightarrow>
      (\<exists>r. token_endpoint T (DeviceCode c dc) = Rejected (Some r) \<and> resp_status r = 400
           \<and> (errorType (resp_data r) = Some ''authorization_pending''
                \<or> errorType (resp_data r) = Some ''slow_down''))"
  proof (cases "token_endpoint T (DeviceCode c dc)")
    case (Resolved b)
    then show ?thesis by (simp add: pollDeviceToken_resolved)
  next
    case (Rejected e)
    then show ?thesis
      by (cases e) (auto simp: pollDeviceToken_rejected)
  qed
  have 2: "\<forall>r. token_endpoint T (DeviceCode c dc) = Rejected (Some r) \<longrightarrow> resp_status r = 400 \<longrightarrow>
          (errorType (resp_data r) = Some ''access_denied''
             \<longrightarrow> pollDeviceToken T c dc = Inl (Error ''access_denied''))
        \<and> (errorType (resp_data r) = Some ''expired_token''
             \<longrightarrow> pollDeviceToken T c dc = Inl (Error ''expired_token''))"
    by (simp add: pollDeviceToken_rejected)
  have 3: "\<forall>e. token_endpoint T (DeviceCode c dc) = Rejected e \<longrightarrow>
          \<not> (\<exists>r. e = Some r \<and> resp_status r = 400
                \<and> errorType (resp_data r) \<in> {Some ''authorization_pending'', Some ''slow_down'',
                      Some ''access_denied'', Some ''expired_token''}) \<longrightarrow>
          pollDeviceToken T c dc = Inl (Error ''Failed to poll for device token'')"
    by (auto simp: pollDeviceToken_rejected split: option.splits)
  have 4: "\<forall>cfg. findConfig w i = Some cfg \<longrightarrow> cfg_userId cfg = uid \<longrightarrow> cfg_clientId cfg = c \<longrightarrow>
          (pollDeviceToken T c dc = Inr None
             \<longrightarrow> pollUserToken P T [] uid i dc name w
                   = ((200, JObj [(''status'', JStr ''pending'')]), w))
        \<and> (pollDeviceToken T c dc = Inl (Error ''access_denied'')
             \<longrightarrow> pollUserToken P T [] uid i dc name w
                   = ((403, JObj [(''status'', JStr ''denied''), (''error'', JStr ''Access denied''),
                                  (''message'', JStr ''User denied the authorization request'')]),
                      w))
        \<and> (pollDeviceToken T c dc = Inl (Error ''expired_token'')
             \<longrightarrow> pollUserToken P T [] uid i dc name w
                   = ((400, JObj [(''status'', JStr ''expired''), (''error'', JStr ''Token expired''),
                                  (''message'',
                                   JStr ''The device code has expired. Please start over.'')]),
                      w))"
    by (simp add: pollUserToken_owned poll_catch_def)
  from 1 2 3 4 show ?thesis by blast
qed


lemma answering_token: "token_endpoint (answering a) g = a"
  by (simp add: answering_def)

lemma rejection_type:
  "msg \<noteq> [] \<Longrightarrow>
   \<exists>r. (rejection code msg :: token_body axios) = Rejected (Some r) \<and> resp_status r = code
       \<and> errorType (resp_data r) = Some msg"
  by (simp add: rejection_def errorType_def or_else_def truthy_def)

lemma demo_findConfig: "findConfig demo_world 1 = Some demo_config"
  by (simp add: findConfig_def demo_world_def demo_config_def)

theorem pollDeviceToken_outcomes_witness:
  "pollDeviceToken (answering (rejection 400 ''slow_down'')) ''abc123'' ''dc1'' = Inr None
   \<and> pollUserToken demo_process (answering (rejection 400 ''slow_down'')) [] 7 1 ''dc1'' None
        demo_world = ((200, JObj [(''status'', JStr ''pending'')]), demo_world)
   \<and> pollDeviceToken (answering (rejection 400 ''access_denied'')) ''abc123'' ''dc1''
       = Inl (Error ''access_denied'')
   \<and> fst (fst (pollUserToken demo_process (answering (rejection 400 ''access_denied'')) [] 7 1
                 ''dc1'' None demo_world)) = 403
   \<and> pollDeviceToken (answering (rejection 400 ''expired_token'')) ''abc123'' ''dc1''
       = Inl (Error ''expired_token'')
   \<and> fst (fst (pollUserToken demo_process (answering (rejection 400 ''expired_token'')) [] 7 1
                 ''dc1'' None demo_world)) = 400
   \<and> pollDeviceToken (answering (rejection 503 ''unavailable'')) ''abc123'' ''dc1''
       = Inl (Error ''Failed to poll for device token'')"
proof -
  have c: "cfg_userId demo_config = 7" "cfg_clientId demo_config = ''abc123''"
    by (simp_all add: demo_config_def)
  obtain r1 where r1: "(rejection 400 ''slow_down'' :: token_body axios) = Rejected (Some r1)"
      "resp_status r1 = 400" "errorType (resp_data r1) = Some ''slow_down''"
    using rejection_type [of "''slow_down''" 400] by auto
  obtain r2 where r2: "(rejection 400 ''access_denied'' :: token_body axios) = Rejected (Some r2)"
      "resp_status r2 = 400" "errorType (resp_data r2) = Some ''access_denied''"
    using rejection_type [of "''access_denied''" 400] by auto
  obtain r3 where r3: "(rejection 400 ''expired_token'' :: token_body axios) = Rejected (Some r3)"
      "resp_status r3 = 400" "errorType (resp_data r3) = Some ''expired_token''"
    using rejection_type [of "''expired_token''" 400] by auto
  obtain r4 where r4: "(rejection 503 ''unavailable'' :: token_body axios) = Rejected (Some r4)"
      "resp_status r4 = 503"
    using rejection_type [of "''unavailable''" 503] by auto
  note t1 = pollDeviceToken_outcomes [of "answering (rejection 400 ''slow_down'')" "''abc123''"
      "''dc1''" demo_world 1 7 demo_process None]
  note t2 = pollDeviceToken_outcomes [of "answering (rejection 400 ''access_denied'')" "''abc123''"
      "''dc1''" demo_world 1 7 demo_process None]
  note t3 = pollDeviceToken_outcomes [of "answering (rejection 400 ''expired_token'')" "''abc123''"
      "''dc1''" demo_world 1 7 demo_process None]
  note t4 = pollDeviceToken_outcomes [of "answering (rejection 503 ''unavailable'')" "''abc123''"
      "''dc1''" demo_world 1 7 demo_process None]
  have p1: "pollDeviceToken (answering (rejection 400 ''slow_down'')) ''abc123'' ''dc1'' = Inr None"
    using t1 r1 by (simp add: answering_token)
  have p2: "pollDeviceToken (answering (rejection 400 ''access_denied'')) ''abc123'' ''dc1''
       = Inl (Error ''access_denied'')"
    using t2 r2 by (simp add: answering_token)
  have p3: "pollDeviceToken (answering (rejection 400 ''expired_token'')) ''abc123'' ''dc1''
       = Inl (Error ''expired_token'')"
    using t3 r3 by (simp add: answering_token)
  have p4: "pollDeviceToken (answering (rejection 503 ''unavailable'')) ''abc123'' ''dc1''
       = Inl (Error ''Failed to poll for device token'')"
    using t4 r4 by (simp add: answering_token)
  show ?thesis
    using t1 t2 t3 p1 p2 p3 p4 demo_findConfig c by simp
qed

lemma startUserToken_state: "snd (startUserToken T errors uid i scs w) = w"
  by (simp add: startUserToken_def split: option.splits sum.splits)

lemma polls_pending:
  assumes "findConfig w i = Some cfg" "cfg_userId cfg = uid"
    and "\<forall>T \<in> set Ts. pollDeviceToken T (cfg_clientId cfg) dc = Inr None"
  shows "polls P Ts uid i dc name w
    = (replicate (length Ts) (200, JObj [(''status'', JStr ''pending'')]), w)"
  using assms(3)
proof (induction Ts)
  case Nil
  then show ?case by simp
next
  case (Cons T Ts)
  then have "pollDeviceToken T (cfg_clientId cfg) dc = Inr None"
    by simp
  then have "pollUserToken P T [] uid i dc name w = ((200, JObj [(''status'', JStr ''pending'')]), w)"
    using assms(1,2) by (simp add: pollUserToken_owned)
  then show ?case
    using Cons by simp
qed

lemma polls_append:
  "polls P (Ts @ Us) uid i dc name w =
     (let (rs, w1) = polls P Ts uid i dc name w; (ss, w2) = polls P Us uid i dc name w1
      in (rs @ ss, w2))"
  by (induction Ts arbitrary: w) (simp_all add: case_prod_beta Let_def)

lemma encrypt_ok:
  assumes "key_configured P"
  shows "\<exists>c. encrypt P s w = (Inr c, w\<lparr>tpos := tpos w + 80\<rparr>)"
proof -
  from assms obtain k where k: "ENCRYPTION_KEY P = Some k" "k \<noteq> []"
    by (auto simp: key_configured_def split: option.splits)
  show ?thesis
    unfolding encrypt_configured [OF k] Let_def by simp
qed

lemma encrypt_decrypt:
  assumes "key_configured P" "aead_correct P" "well_formed s"
    and "fst (encrypt P s w) = Inr c"
  shows "decrypt P c = Inr s"
  using roundtrip_value [OF assms(1,2), of s w] utf8_roundtrip [OF assms(3)] assms(4)
  by (simp add: roundtrip_def)

lemma encrypt_no_key:
  assumes "\<not> key_configured P"
  shows "encrypt P s w =
    (Inl (Error ''ENCRYPTION_KEY is not defined in environment variables''),
     w\<lparr>tpos := tpos w + 64\<rparr>)"
  using assms
  by (simp add: encrypt_def randomBytes_def getKey_def key_configured_def
      split: option.splits)

lemma DateTime_stored:
  "abs t \<le> 8640000000000000 \<Longrightarrow> timestamp_error P t = None \<Longrightarrow> DateTime P (TimeClip t) = Inr t"
  by (simp add: DateTime_def TimeClip_def)

lemma DateTime_invalid:
  "\<not> abs t \<le> 8640000000000000 \<Longrightarrow> DateTime P (TimeClip t) = Inl (Error (invalid_date_error P))"
  by (simp add: DateTime_def TimeClip_def)

lemma DateTime_refused:
  "abs t \<le> 8640000000000000 \<Longrightarrow> timestamp_error P t = Some m \<Longrightarrow>
   DateTime P (TimeClip t) = Inl (Error m)"
  by (simp add: DateTime_def TimeClip_def)

lemma pollUserToken_granted:
  assumes cfg: "findConfig w i = Some cfg" "cfg_userId cfg = uid"
    and poll: "pollDeviceToken T (cfg_clientId cfg) dc = Inr (Some td)"
    and val: "validateToken T (accessToken td) = Inr v"
    and key: "key_configured P"
  shows "\<exists>ea er.
      fst (encrypt P (accessToken td) w) = Inr ea
    \<and> fst (encrypt P (refreshToken td) (w\<lparr>tpos := tpos w + 80\<rparr>)) = Inr er
    \<and> pollUserToken P T [] uid i dc name w =
        (case DateTime P (TimeClip (clock w + expiresIn td * 1000)) of
           Inl e \<Rightarrow> (poll_catch e, w\<lparr>tpos := tpos w + 160\<rparr>)
         | Inr at \<Rightarrow>
             ((201,
               JObj [(''status'', JStr ''success''),
                     (''message'', JStr ''User access token generated successfully''),
                     (''token'',
                      responseToken
                        (w\<lparr>tpos := tpos w + 160,
                           tokens := tokens w @
                             [\<lparr> tok_id = fresh (map tok_id (tokens w)), tok_userId = uid,
                                 tok_twitchConfigId = i, tok_tokenType = ''user'',
                                 tok_accessToken = ea, tok_refreshToken = Some er,
                                 tok_scopes = scopes td, tok_channelLogin = val_login v,
                                 tok_channelId = val_userId v, tok_name = or_else name None,
                                 tok_expiresAt = Some at,
                                 tok_createdAt = clock w, tok_updatedAt = clock w \<rparr>]\<rparr>)
                        \<lparr> tok_id = fresh (map tok_id (tokens w)), tok_userId = uid,
                           tok_twitchConfigId = i, tok_tokenType = ''user'',
                           tok_accessToken = ea, tok_refreshToken = Some er,
                           tok_scopes = scopes td, tok_channelLogin = val_login v,
                           tok_channelId = val_userId v, tok_name = or_else name None,
                           tok_expiresAt = Some at,
                           tok_createdAt = clock w, tok_updatedAt = clock w \<rparr>
                        (accessToken td) (Some (refreshToken td)))]),
              w\<lparr>tpos := tpos w + 160,
                 tokens := tokens w @
                   [\<lparr> tok_id = fresh (map tok_id (tokens w)), tok_userId = uid,
                       tok_twitchConfigId = i, tok_tokenType = ''user'',
                       tok_accessToken = ea, tok_refreshToken = Some er,
                       tok_scopes = scopes td, tok_channelLogin = val_login v,
                       tok_channelId = val_userId v, tok_name = or_else name None,
                       tok_expiresAt = Some at,
                       tok_createdAt = clock w, tok_updatedAt = clock w \<rparr>]\<rparr>))"
proof -
  obtain ea where ea: "encrypt P (accessToken td) w = (Inr ea, w\<lparr>tpos := tpos w + 80\<rparr>)"
    using encrypt_ok [OF key] by blast
  obtain er where er: "encrypt P (refreshToken td) (w\<lparr>tpos := tpos w + 80\<rparr>)
      = (Inr er, w\<lparr>tpos := tpos w + 160\<rparr>)"
    using encrypt_ok [OF key, of "refreshToken td" "w\<lparr>tpos := tpos w + 80\<rparr>"] by auto
  show ?thesis
    by (rule exI [of _ ea], rule exI [of _ er])
       (simp add: pollUserToken_owned [OF cfg] poll val ea er createToken_def Let_def
          split: sum.splits)
qed

lemma pollUserToken_refused:
  assumes cfg: "findConfig w i = Some cfg" "cfg_userId cfg = uid"
    and poll: "pollDeviceToken T (cfg_clientId cfg) dc = Inr (Some td)"
    and val: "validateToken T (accessToken td) = Inr v"
    and key: "key_configured P"
    and date: "DateTime P (TimeClip (clock w + expiresIn td * 1000)) = Inl e"
  shows "pollUserToken P T [] uid i dc name w = (poll_catch e, w\<lparr>tpos := tpos w + 160\<rparr>)"
  using pollUserToken_granted [OF cfg poll val key, of name] by (auto simp: date)

text \<open>
  Claim C1, amended. For a poll on a configuration owned by the requester: when the
  provider client reports still pending, the handler answers \<open>pending\<close> and the state is
  unchanged. When the provider client returns a token result, the handler validates the
  new access secret. If the validation returns, the master key is set and the expiry, the
  clock plus \<open>expiresIn\<close> seconds, is a valid date that the database stores, the handler
  answers 201 and appends exactly one record to the token table, leaving the other tables
  alone: a \<open>user\<close> record whose access and refresh secrets are the outputs of \<open>encrypt\<close> on
  the two token values (and decrypt back to them), whose login and id are those of the
  validation, whose scopes are the granted ones and whose expiry is that date. If the
  validation throws, the master key is not set or the expiry is refused, the handler
  answers with that error (500, unless its message is one of the two that the poll
  outcomes use) and the tables are as before. So a start followed by any number
  of pending polls and one successful poll leaves exactly one more record than before.
\<close>

theorem device_poll_persists_once:
  assumes "findConfig w i = Some cfg" and "cfg_userId cfg = uid"
  shows
    "(pollDeviceToken T (cfg_clientId cfg) dc = Inr None
        \<longrightarrow> pollUserToken P T [] uid i dc name w
              = ((200, JObj [(''status'', JStr ''pending'')]), w))
     \<and> (\<forall>td v. pollDeviceToken T (cfg_clientId cfg) dc = Inr (Some td)
            \<longrightarrow> validateToken T (accessToken td) = Inr v \<longrightarrow> key_configured P
            \<longrightarrow> abs (clock w + expiresIn td * 1000) \<le> 8640000000000000
            \<longrightarrow> timestamp_error P (clock w + expiresIn td * 1000) = None
            \<longrightarrow> (\<exists>ea er.
                   fst (encrypt P (accessToken td) w) = Inr ea
                 \<and> fst (encrypt P (refreshToken td) (snd (encrypt P (accessToken td) w))) = Inr er
                 \<and> fst (fst (pollUserToken P T [] uid i dc name w)) = 201
                 \<and> configs (snd (pollUserToken P T [] uid i dc name w)) = configs w
                 \<and> webhooks (snd (pollUserToken P T [] uid i dc name w)) = webhooks w
                 \<and> tokens (snd (pollUserToken P T [] uid i dc name w)) =
                     tokens w @
                       [\<lparr> tok_id = fresh (map tok_id (tokens w)), tok_userId = uid,
                           tok_twitchConfigId = i, tok_tokenType = ''user'',
                           tok_accessToken = ea, tok_refreshToken = Some er,
                           tok_scopes = scopes td, tok_channelLogin = val_login v,
                           tok_channelId = val_userId v, tok_name = or_else name None,
                           tok_expiresAt = Some (clock w + expiresIn td * 1000),
                           tok_createdAt = clock w, tok_updatedAt = clock w \<rparr>]
                 \<and> (aead_correct P \<longrightarrow> well_formed (accessToken td)
                       \<longrightarrow> decrypt P ea = Inr (accessToken td))
                 \<and> (aead_correct P \<longrightarrow> well_formed (refreshToken td)
                       \<longrightarrow> decrypt P er = Inr (refreshToken td))))
     \<and> (\<forall>td e. pollDeviceToken T (cfg_clientId cfg) dc = Inr (Some td)
            \<longrightarrow> validateToken T (accessToken td) = Inl e
            \<longrightarrow> pollUserToken P T [] uid i dc name w = (poll_catch e, w))
     \<and> (\<forall>td v. pollDeviceToken T (cfg_clientId cfg) dc = Inr (Some td)
            \<longrightarrow> validateToken T (accessToken td) = Inr v \<longrightarrow> \<not> key_configured P
            \<longrightarrow> pollUserToken P T [] uid i dc name w
                  = (poll_catch (Error ''ENCRYPTION_KEY is not defined in environment variables''),
                     w\<lparr>tpos := tpos w + 64\<rparr>))
     \<and> (\<forall>td v. pollDeviceToken T (cfg_clientId cfg) dc = Inr (Some td)
            \<longrightarrow> validateToken T (accessToken td) = Inr v \<longrightarrow> key_configured P
            \<longrightarrow> 8640000000000000 < abs (clock w + expiresIn td * 1000)
            \<longrightarrow> pollUserToken P T [] uid i dc name w
                  = (poll_catch (Error (invalid_date_error P)), w\<lparr>tpos := tpos w + 160\<rparr>))
     \<and> (\<forall>td v m. pollDeviceToken T (cfg_clientId cfg) dc = Inr (Some td)
            \<longrightarrow> validateToken T (accessToken td) = Inr v \<longrightarrow> key_configured P
            \<longrightarrow> abs (clock w + expiresIn td * 1000) \<le> 8640000000000000
            \<longrightarrow> timestamp_error P (clock w + expiresIn td * 1000) = Some m
            \<longrightarrow> pollUserToken P T [] uid i dc name w
                  = (poll_catch (Error m), w\<lparr>tpos := tpos w + 160\<rparr>))
     \<and> (\<forall>Ts td v. (\<forall>T' \<in> set Ts. pollDeviceToken T' (cfg_clientId cfg) dc = Inr None)
            \<longrightarrow> pollDeviceToken T (cfg_clientId cfg) dc = Inr (Some td)
            \<longrightarrow> validateToken T (accessToken td) = Inr v \<longrightarrow> key_configured P
            \<longrightarrow> abs (clock w + expiresIn td * 1000) \<le> 8640000000000000
            \<longrightarrow> timestamp_error P (clock w + expiresIn td * 1000) = None
            \<longrightarrow> length (tokens (snd (polls P (Ts @ [T]) uid i dc name
                                      (snd (startUserToken T0 [] uid i scs w)))))
                  = length (tokens w) + 1
              \<and> butlast (tokens (snd (polls P (Ts @ [T]) uid i dc name
                                        (snd (startUserToken T0 [] uid i scs w)))))
                  = tokens w)
     \<and> (\<forall>e. message_of e \<noteq> ''access_denied'' \<longrightarrow> message_of e \<noteq> ''expired_token''
            \<longrightarrow> poll_catch e =
                  (500, JObj [(''error'', JStr ''Server error''),
                              (''message'',
                               JStr (if message_of e = [] then ''Failed to poll for user token''
                                     else message_of e))]))"
proof (intro conjI allI impI)
  assume "pollDeviceToken T (cfg_clientId cfg) dc = Inr None"
  then show "pollUserToken P T [] uid i dc name w
      = ((200, JObj [(''status'', JStr ''pending'')]), w)"
    by (simp add: pollUserToken_owned [OF assms])
next
  fix td v
  assume poll: "pollDeviceToken T (cfg_clientId cfg) dc = Inr (Some td)"
    and val: "validateToken T (accessToken td) = Inr v" and key: "key_configured P"
    and rng: "abs (clock w + expiresIn td * 1000) \<le> 8640000000000000"
    and db: "timestamp_error P (clock w + expiresIn td * 1000) = None"
  obtain ea er where e: "fst (encrypt P (accessToken td) w) = Inr ea"
      "fst (encrypt P (refreshToken td) (w\<lparr>tpos := tpos w + 80\<rparr>)) = Inr er"
    and r: "pollUserToken P T [] uid i dc name w =
        (case DateTime P (TimeClip (clock w + expiresIn td * 1000)) of
           Inl e \<Rightarrow> (poll_catch e, w\<lparr>tpos := tpos w + 160\<rparr>)
         | Inr at \<Rightarrow>
             ((201,
               JObj [(''status'', JStr ''success''),
                     (''message'', JStr ''User access token generated successfully''),
                     (''token'',
                      responseToken
                        (w\<lparr>tpos := tpos w + 160,
                           tokens := tokens w @
                             [\<lparr> tok_id = fresh (map tok_id (tokens w)), tok_userId = uid,
                                 tok_twitchConfigId = i, tok_tokenType = ''user'',
                                 tok_accessToken = ea, tok_refreshToken = Some er,
                                 tok_scopes = scopes td, tok_channelLogin = val_login v,
                                 tok_channelId = val_userId v, tok_name = or_else name None,
                                 tok_expiresAt = Some at,
                                 tok_createdAt = clock w, tok_updatedAt = clock w \<rparr>]\<rparr>)
                        \<lparr> tok_id = fresh (map tok_id (tokens w)), tok_userId = uid,
                           tok_twitchConfigId = i, tok_tokenType = ''user'',
                           tok_accessToken = ea, tok_refreshToken = Some er,
                           tok_scopes = scopes td, tok_channelLogin = val_login v,
                           tok_channelId = val_userId v, tok_name = or_else name None,
                           tok_expiresAt = Some at,
                           tok_createdAt = clock w, tok_updatedAt = clock w \<rparr>
                        (accessToken td) (Some (refreshToken td)))]),
              w\<lparr>tpos := tpos w + 160,
                 tokens := tokens w @
                   [\<lparr> tok_id = fresh (map tok_id (tokens w)), tok_userId = uid,
                       tok_twitchConfigId = i, tok_tokenType = ''user'',
                       tok_accessToken = ea, tok_refreshToken = Some er,
                       tok_scopes = scopes td, tok_channelLogin = val_login v,
                       tok_channelId = val_userId v, tok_name = or_else name None,
                       tok_expiresAt = Some at,
                       tok_createdAt = clock w, tok_updatedAt = clock w \<rparr>]\<rparr>))"
    using pollUserToken_granted [OF assms poll val key, of name] by blast
  note r' = r [unfolded DateTime_stored [OF rng db] sum.case]
  have s: "snd (encrypt P (accessToken td) w) = w\<lparr>tpos := tpos w + 80\<rparr>"
    using encrypt_ok [OF key, of "accessToken td" w] by auto
  have d1: "aead_correct P \<Longrightarrow> well_formed (accessToken td) \<Longrightarrow> decrypt P ea = Inr (accessToken td)"
    using encrypt_decrypt [OF key _ _ e(1)] by blast
  have d2: "aead_correct P \<Longrightarrow> well_formed (refreshToken td) \<Longrightarrow> decrypt P er = Inr (refreshToken td)"
    using encrypt_decrypt [OF key _ _ e(2)] by blast
  show "\<exists>ea er.
      fst (encrypt P (accessToken td) w) = Inr ea
    \<and> fst (encrypt P (refreshToken td) (snd (encrypt P (accessToken td) w))) = Inr er
    \<and> fst (fst (pollUserToken P T [] uid i dc name w)) = 201
    \<and> configs (snd (pollUserToken P T [] uid i dc name w)) = configs w
    \<and> webhooks (snd (pollUserToken P T [] uid i dc name w)) = webhooks w
    \<and> tokens (snd (pollUserToken P T [] uid i dc name w)) =
        tokens w @
          [\<lparr> tok_id = fresh (map tok_id (tokens w)), tok_userId = uid,
              tok_twitchConfigId = i, tok_tokenType = ''user'',
              tok_accessToken = ea, tok_refreshToken = Some er,
              tok_scopes = scopes td, tok_channelLogin = val_login v,
              tok_channelId = val_userId v, tok_name = or_else name None,
              tok_expiresAt = Some (clock w + expiresIn td * 1000),
              tok_createdAt = clock w, tok_updatedAt = clock w \<rparr>]
    \<and> (aead_correct P \<longrightarrow> well_formed (accessToken td) \<longrightarrow> decrypt P ea = Inr (accessToken td))
    \<and> (aead_correct P \<longrightarrow> well_formed (refreshToken td) \<longrightarrow> decrypt P er = Inr (refreshToken td))"
    by (rule exI [of _ ea], rule exI [of _ er]) (simp add: e s r' d1 d2)
next
  fix td e
  assume "pollDeviceToken T (cfg_clientId cfg) dc = Inr (Some td)"
    and "validateToken T (accessToken td) = Inl e"
  then show "pollUserToken P T [] uid i dc name w = (poll_catch e, w)"
    by (simp add: pollUserToken_owned [OF assms])
next
  fix td v
  assume "pollDeviceToken T (cfg_clientId cfg) dc = Inr (Some td)"
    and "validateToken T (accessToken td) = Inr v" and "\<not> key_configured P"
  then show "pollUserToken P T [] uid i dc name w
      = (poll_catch (Error ''ENCRYPTION_KEY is not defined in environment variables''),
         w\<lparr>tpos := tpos w + 64\<rparr>)"
    by (simp add: pollUserToken_owned [OF assms] encrypt_no_key)
next
  fix td v
  assume poll: "pollDeviceToken T (cfg_clientId cfg) dc = Inr (Some td)"
    and val: "validateToken T (accessToken td) = Inr v" and key: "key_configured P"
    and rng: "8640000000000000 < abs (clock w + expiresIn td * 1000)"
  have "DateTime P (TimeClip (clock w + expiresIn td * 1000)) = Inl (Error (invalid_date_error P))"
    using rng by (intro DateTime_invalid) simp
  then show "pollUserToken P T [] uid i dc name w
      = (poll_catch (Error (invalid_date_error P)), w\<lparr>tpos := tpos w + 160\<rparr>)"
    by (rule pollUserToken_refused [OF assms poll val key])
next
  fix td v m
  assume poll: "pollDeviceToken T (cfg_clientId cfg) dc = Inr (Some td)"
    and val: "validateToken T (accessToken td) = Inr v" and key: "key_configured P"
    and rng: "abs (clock w + expiresIn td * 1000) \<le> 8640000000000000"
    and db: "timestamp_error P (clock w + expiresIn td * 1000) = Some m"
  show "pollUserToken P T [] uid i dc name w
      = (poll_catch (Error m), w\<lparr>tpos := tpos w + 160\<rparr>)"
    by (rule pollUserToken_refused [OF assms poll val key DateTime_refused [OF rng db]])
next
  fix Ts td v
  assume pend: "\<forall>T' \<in> set Ts. pollDeviceToken T' (cfg_clientId cfg) dc = Inr None"
    and poll: "pollDeviceToken T (cfg_clientId cfg) dc = Inr (Some td)"
    and val: "validateToken T (accessToken td) = Inr v" and key: "key_configured P"
    and rng: "abs (clock w + expiresIn td * 1000) \<le> 8640000000000000"
    and db: "timestamp_error P (clock w + expiresIn td * 1000) = None"
  have p: "polls P Ts uid i dc name w
      = (replicate (length Ts) (200, JObj [(''status'', JStr ''pending'')]), w)"
    by (rule polls_pending [OF assms pend])
  obtain t where t: "tokens (snd (pollUserToken P T [] uid i dc name w)) = tokens w @ [t]"
    using pollUserToken_granted [OF assms poll val key, of name]
    by (auto simp: DateTime_stored [OF rng db])
  have "tokens (snd (polls P (Ts @ [T]) uid i dc name (snd (startUserToken T0 [] uid i scs w))))
      = tokens w @ [t]"
    using t by (simp add: startUserToken_state polls_append p case_prod_beta)
  then show "length (tokens (snd (polls P (Ts @ [T]) uid i dc name
            (snd (startUserToken T0 [] uid i scs w))))) = length (tokens w) + 1"
    and "butlast (tokens (snd (polls P (Ts @ [T]) uid i dc name
            (snd (startUserToken T0 [] uid i scs w))))) = tokens w"
    by simp_all
next
  fix e
  assume "message_of e \<noteq> ''access_denied''" "message_of e \<noteq> ''expired_token''"
  then show "poll_catch e =
      (500, JObj [(''error'', JStr ''Server error''),
                  (''message'',
                   JStr (if message_of e = [] then ''Failed to poll for user token''
                         else message_of e))])"
    by (simp add: poll_catch_def fail_def catch_message_def)
qed

lemma demo_poll_success:
  "pollDeviceToken (answering (Resolved b)) ''abc123'' ''dc1'' = Inr (Some (token_result b))"
  by (simp add: pollDeviceToken_resolved answering_token)

lemma demo_validate:
  "validateToken (answering a) tok =
     Inr \<lparr> val_clientId = ''abc123'', val_login = Some ''streamer'',
           val_scopes = [''user:read:email'', ''chat:read''], val_userId = Some ''4242'',
           val_expiresIn = 3600 \<rparr>"
  by (simp add: validateToken_def answering_def demo_validate_body_def or_else_def truthy_def)

lemma demo_poll_pending:
  "pollDeviceToken (answering (rejection 400 ''authorization_pending'')) ''abc123'' ''dc1''
     = Inr None"
  by (simp add: pollDeviceToken_def answering_token rejection_def errorType_def or_else_def
      truthy_def)

theorem device_poll_persists_once_witness:
  "findConfig demo_world 1 = Some demo_config \<and> cfg_userId demo_config = 7
   \<and> pollDeviceToken (answering (rejection 400 ''authorization_pending''))
        (cfg_clientId demo_config) ''dc1'' = Inr None
   \<and> pollUserToken demo_process (answering (rejection 400 ''authorization_pending'')) [] 7 1
        ''dc1'' None demo_world = ((200, JObj [(''status'', JStr ''pending'')]), demo_world)
   \<and> pollDeviceToken (answering (Resolved demo_token_body)) (cfg_clientId demo_config) ''dc1''
       = Inr (Some (token_result demo_token_body))
   \<and> key_configured demo_process
   \<and> abs (clock demo_world + expiresIn (token_result demo_token_body) * 1000)
       \<le> 8640000000000000
   \<and> timestamp_error demo_process
        (clock demo_world + expiresIn (token_result demo_token_body) * 1000) = None
   \<and> fst (fst (pollUserToken demo_process (answering (Resolved demo_token_body)) [] 7 1
                 ''dc1'' None demo_world)) = 201
   \<and> map tok_tokenType
        (tokens (snd (pollUserToken demo_process (answering (Resolved demo_token_body)) [] 7 1
                       ''dc1'' None demo_world))) = [''user'']
   \<and> map tok_expiresAt
        (tokens (snd (pollUserToken demo_process (answering (Resolved demo_token_body)) [] 7 1
                       ''dc1'' None demo_world))) = [Some 3601000]
   \<and> length (tokens (snd (polls demo_process
        (replicate 3 (answering (rejection 400 ''authorization_pending''))
           @ [answering (Resolved demo_token_body)]) 7 1 ''dc1'' None
        (snd (startUserToken (answering (Resolved demo_token_body)) [] 7 1 [''chat:read'']
               demo_world))))) = 1"
proof -
  have c: "cfg_userId demo_config = 7" "cfg_clientId demo_config = ''abc123''"
    by (simp_all add: demo_config_def)
  have w: "tokens demo_world = []" "clock demo_world = 1000"
    by (simp_all add: demo_world_def)
  have x: "expiresIn (token_result demo_token_body) = 3600"
    by (simp add: token_result_def demo_token_body_def)
  have y: "timestamp_error demo_process 3601000 = None"
    by (simp add: demo_process_def)
  note a = device_poll_persists_once [OF demo_findConfig c(1),
      where T = "answering (rejection 400 ''authorization_pending'')" and dc = "''dc1''"
        and P = demo_process and name = None]
  note b = device_poll_persists_once [OF demo_findConfig c(1),
      where T = "answering (Resolved demo_token_body)" and dc = "''dc1''"
        and P = demo_process and name = None
        and ?T0.0 = "answering (Resolved demo_token_body)" and scs = "[''chat:read'']"]
  have 1: "pollUserToken demo_process (answering (rejection 400 ''authorization_pending'')) [] 7 1
        ''dc1'' None demo_world = ((200, JObj [(''status'', JStr ''pending'')]), demo_world)"
    using a demo_poll_pending by (simp add: c)
  from b have "\<exists>ea er.
      fst (fst (pollUserToken demo_process (answering (Resolved demo_token_body)) [] 7 1
                 ''dc1'' None demo_world)) = 201
    \<and> tokens (snd (pollUserToken demo_process (answering (Resolved demo_token_body)) [] 7 1
                 ''dc1'' None demo_world)) =
        [\<lparr> tok_id = fresh [], tok_userId = 7,
            tok_twitchConfigId = 1, tok_tokenType = ''user'',
            tok_accessToken = ea, tok_refreshToken = Some er,
            tok_scopes = scopes (token_result demo_token_body),
            tok_channelLogin = Some ''streamer'',
            tok_channelId = Some ''4242'', tok_name = or_else None None,
            tok_expiresAt = Some 3601000,
            tok_createdAt = 1000, tok_updatedAt = 1000 \<rparr>]"
    using demo_poll_success [of demo_token_body] demo_validate demo_key_configured
    by (simp add: c w x y) blast
  then have 2: "fst (fst (pollUserToken demo_process (answering (Resolved demo_token_body)) [] 7 1
                 ''dc1'' None demo_world)) = 201"
    and 3: "map tok_tokenType
        (tokens (snd (pollUserToken demo_process (answering (Resolved demo_token_body)) [] 7 1
                       ''dc1'' None demo_world))) = [''user'']"
    and 4: "map tok_expiresAt
        (tokens (snd (pollUserToken demo_process (answering (Resolved demo_token_body)) [] 7 1
                       ''dc1'' None demo_world))) = [Some 3601000]"
    by auto
  have "\<forall>T' \<in> set (replicate 3 (answering (rejection 400 ''authorization_pending''))).
      pollDeviceToken T' (cfg_clientId demo_config) ''dc1'' = Inr None"
    using demo_poll_pending by (simp add: c)
  with b have 5: "length (tokens (snd (polls demo_process
        (replicate 3 (answering (rejection 400 ''authorization_pending''))
           @ [answering (Resolved demo_token_body)]) 7 1 ''dc1'' None
        (snd (startUserToken (answering (Resolved demo_token_body)) [] 7 1 [''chat:read'']
               demo_world))))) = 1"
    using demo_poll_success [of demo_token_body] demo_validate demo_key_configured
    by (simp add: c w x y)
  show ?thesis
    using 1 2 3 4 5 demo_findConfig demo_poll_pending demo_poll_success [of demo_token_body]
      demo_key_configured
    by (simp add: c w x y)
qed

text \<open>
  Claim C1 as stated fails: the provider client returns a token result, and no record is
  persisted, when the validation of the new access secret is rejected, when the grant's
  lifetime leads beyond the last valid date (\<open>expires_in\<close> of 10^16 seconds), and when
  the master key is not set. The handler answers 500 each time.
\<close>

theorem granted_but_not_persisted_counterexample:
  "pollDeviceToken (rejecting_validation (Resolved demo_token_body)) ''abc123'' ''dc1''
     = Inr (Some (token_result demo_token_body))
   \<and> fst (fst (pollUserToken demo_process (rejecting_validation (Resolved demo_token_body))
                 [] 7 1 ''dc1'' None demo_world)) = 500
   \<and> tokens (snd (pollUserToken demo_process (rejecting_validation (Resolved demo_token_body))
                    [] 7 1 ''dc1'' None demo_world)) = []
   \<and> pollDeviceToken (answering (Resolved endless_token_body)) ''abc123'' ''dc1''
     = Inr (Some (token_result endless_token_body))
   \<and> fst (fst (pollUserToken demo_process (answering (Resolved endless_token_body))
                 [] 7 1 ''dc1'' None demo_world)) = 500
   \<and> tokens (snd (pollUserToken demo_process (answering (Resolved endless_token_body))
                    [] 7 1 ''dc1'' None demo_world)) = []
   \<and> fst (fst (pollUserToken keyless_process (answering (Resolved demo_token_body))
                 [] 7 1 ''dc1'' None demo_world)) = 500
   \<and> tokens (snd (pollUserToken keyless_process (answering (Resolved demo_token_body))
                    [] 7 1 ''dc1'' None demo_world)) = []"
proof -
  have c: "cfg_userId demo_config = 7" "cfg_clientId demo_config = ''abc123''"
    by (simp_all add: demo_config_def)
  have w: "tokens demo_world = []" "clock demo_world = 1000"
    by (simp_all add: demo_world_def)
  have p1: "pollDeviceToken (rejecting_validation (Resolved demo_token_body)) ''abc123'' ''dc1''
     = Inr (Some (token_result demo_token_body))"
    by (simp add: pollDeviceToken_def rejecting_validation_def answering_def)
  have v1: "validateToken (rejecting_validation (Resolved demo_token_body))
      (accessToken (token_result demo_token_body)) = Inl (Error ''Invalid or expired token'')"
    by (simp add: validateToken_def rejecting_validation_def answering_def)
  have r1: "pollUserToken demo_process (rejecting_validation (Resolved demo_token_body))
      [] 7 1 ''dc1'' None demo_world
      = (fail 500 ''Server error'' ''Invalid or expired token'', demo_world)"
    unfolding pollUserToken_owned [OF demo_findConfig c(1)]
    by (simp add: c(2) p1 v1 poll_catch_def catch_message_def)
  have x: "expiresIn (token_result endless_token_body) = 10000000000000000"
    by (simp add: token_result_def endless_token_body_def demo_token_body_def)
  have p2: "pollDeviceToken (answering (Resolved endless_token_body)) (cfg_clientId demo_config)
      ''dc1'' = Inr (Some (token_result endless_token_body))"
    by (simp add: c(2) demo_poll_success)
  have d: "DateTime demo_process
      (TimeClip (clock demo_world + expiresIn (token_result endless_token_body) * 1000))
      = Inl (Error ''Provided Date object is invalid. Expected Date.'')"
    by (simp add: w x DateTime_def TimeClip_def demo_process_def)
  have r2: "pollUserToken demo_process (answering (Resolved endless_token_body))
      [] 7 1 ''dc1'' None demo_world
      = (poll_catch (Error ''Provided Date object is invalid. Expected Date.''),
         demo_world\<lparr>tpos := tpos demo_world + 160\<rparr>)"
    by (rule pollUserToken_refused [OF demo_findConfig c(1) p2 demo_validate
          demo_key_configured d])
  have k: "\<not> key_configured keyless_process"
    by (simp add: key_configured_def keyless_process_def)
  have r3: "pollUserToken keyless_process (answering (Resolved demo_token_body))
      [] 7 1 ''dc1'' None demo_world
      = (fail 500 ''Server error'' ''ENCRYPTION_KEY is not defined in environment variables'',
         demo_world\<lparr>tpos := tpos demo_world + 64\<rparr>)"
    unfolding pollUserToken_owned [OF demo_findConfig c(1)]
    by (simp add: c(2) demo_poll_success [of demo_token_body] demo_validate
        encrypt_no_key [OF k] poll_catch_def catch_message_def)
  show ?thesis
    unfolding r1 r2 r3 p1 demo_poll_success
    by (simp add: w fail_def poll_catch_def catch_message_def)
qed

section \<open>Refresh\<close>


lemma findToken_Some: "findToken w i = Some t \<Longrightarrow> t \<in> set (tokens w) \<and> tok_id t = i"
  unfolding findToken_def by (induction "tokens w" arbitrary: w) (auto simp: find_Some_iff)

lemma find_in_set: "find P xs = Some x \<Longrightarrow> x \<in> set xs \<and> P x"
  by (induction xs) (auto split: if_splits)


lemma find_map_update:
  "find (\<lambda>t. f t = i) xs = Some t \<Longrightarrow> (\<And>x. f (g x) = f x) \<Longrightarrow>
   find (\<lambda>t. f t = i) (map (\<lambda>t. if f t = i then g t else t) xs) = Some (g t)"
  by (induction xs) (auto split: if_splits)






lemma demo_decrypt:
  "decrypt demo_process (js '':01:016b:305f6b6f74'') = Inr (js ''tok_0'')"
  "decrypt demo_process (js '':01:016b:305f666572'') = Inr (js ''ref_0'')"
  "decrypt demo_process (js '':01:016b:305f707061'') = Inr (js ''app_0'')"
  "decrypt demo_process (js '':01:016b:686873'') = Inr (js ''shh'')"
  by (simp_all add: decrypt_def js_Cons js_Nil colon_def hexval_def getKey_def demo_process_def
      utf8_string_def cont_def second_ok_def units_def Let_def)




section \<open>Listing and fetching tokens\<close>

lemma insort_key_map:
  "(\<And>x. f (g x) = f x) \<Longrightarrow> insort_key f (g x) (map g ys) = map g (insort_key f x ys)"
  by (induction ys) simp_all

lemma sort_key_map:
  "(\<And>x. f (g x) = f x) \<Longrightarrow> sort_key f (map g xs) = map g (sort_key f xs)"
  by (induction xs) (simp_all add: insort_key_map)

lemma find_map_key:
  "(\<And>x. p (g x) = p x) \<Longrightarrow> find p (map g xs) = map_option g (find p xs)"
  by (induction xs) simp_all

lemma twitchConfig_select_mask:
  assumes "configs v = map mask_config (configs w)"
  shows "twitchConfig_select v i = twitchConfig_select w i"
proof -
  have "find (\<lambda>c. cfg_id c = i) (map mask_config (configs w))
      = map_option mask_config (find (\<lambda>c. cfg_id c = i) (configs w))"
    by (rule find_map_key) (simp add: mask_config_def)
  then show ?thesis
    using assms
    by (simp add: twitchConfig_select_def findConfig_def mask_config_def split: option.splits)
qed

lemma sanitizedToken_mask:
  assumes "configs v = map mask_config (configs w)"
  shows "sanitizedToken v (mask_token t) = sanitizedToken w t"
  by (simp add: sanitizedToken_def token_tail_def mask_token_def
      twitchConfig_select_mask [OF assms])

lemma getAllTokens_masked:
  assumes "tokens v = map mask_token (tokens w)" "configs v = map mask_config (configs w)"
  shows "getAllTokens uid v = getAllTokens uid w"
proof -
  let ?k = "\<lambda>t. - tok_createdAt t"
  let ?p = "\<lambda>t. tok_userId t = uid"
  have "sort_key ?k (filter ?p (map mask_token (tokens w)))
      = map mask_token (sort_key ?k (filter ?p (tokens w)))"
  proof -
    have "filter ?p (map mask_token (tokens w)) = map mask_token (filter ?p (tokens w))"
      by (simp add: filter_map o_def mask_token_def)
    moreover have "sort_key ?k (map mask_token (filter ?p (tokens w)))
        = map mask_token (sort_key ?k (filter ?p (tokens w)))"
      by (rule sort_key_map) (simp add: mask_token_def)
    ultimately show ?thesis by simp
  qed
  then show ?thesis
    by (simp add: getAllTokens_def assms(1) o_def sanitizedToken_mask [OF assms(2)])
qed

lemma sanitized_keys: "object_keys (sanitizedToken w t) = listed_keys"
  by (simp add: object_keys_def sanitizedToken_def token_tail_def listed_keys_def)

lemma sanitized_config_keys:
  "field ''twitchConfig'' (sanitizedToken w t) = Some v \<Longrightarrow>
   v = JNull \<or> object_keys v = [''id'', ''clientId'', ''name'']"
  by (auto simp: field_def sanitizedToken_def token_tail_def twitchConfig_select_def
      object_keys_def split: option.splits)

text \<open>
  Claim C10. The list of all tokens holds one object per record of the requesting owner,
  each with exactly the keys id, tokenType, scopes, channelLogin, channelId, name,
  expiresAt, createdAt, updatedAt and twitchConfig (the last one null or an object with
  id, clientId and name): no access or refresh secret. Two states whose token and
  configuration tables are equal once the secret fields are blanked give the same list.
  The fetch of one token by id, for a record of the requester whose access secret
  decrypts, returns the decrypted access secret, and the decrypted refresh secret when
  the record has one (no \<open>refreshToken\<close> key otherwise).
\<close>

theorem listing_hides_secrets:
  "(\<exists>ts. getAllTokens uid w = (200, JObj [(''tokens'', JArr ts)])
        \<and> length ts = length (filter (\<lambda>t. tok_userId t = uid) (tokens w))
        \<and> (\<forall>t \<in> set ts. object_keys t = listed_keys
              \<and> (\<forall>v. field ''twitchConfig'' t = Some v
                    \<longrightarrow> v = JNull \<or> object_keys v = [''id'', ''clientId'', ''name''])))
   \<and> (map mask_token (tokens w') = map mask_token (tokens w)
        \<longrightarrow> map mask_config (configs w') = map mask_config (configs w)
        \<longrightarrow> getAllTokens uid w' = getAllTokens uid w)
   \<and> (\<forall>t a. findToken w i = Some t \<longrightarrow> tok_userId t = uid
        \<longrightarrow> decrypt P (tok_accessToken t) = Inr a
        \<longrightarrow> ((tok_refreshToken t = None \<or> tok_refreshToken t = Some [])
               \<longrightarrow> fst (getToken P [] uid i w) = 200
                 \<and> (\<exists>j. field ''token'' (snd (getToken P [] uid i w)) = Some j
                        \<and> field ''accessToken'' j = Some (JText a)
                        \<and> field ''refreshToken'' j = None))
          \<and> (\<forall>r s. tok_refreshToken t = Some r \<longrightarrow> r \<noteq> [] \<longrightarrow> decrypt P r = Inr s
               \<longrightarrow> fst (getToken P [] uid i w) = 200
                 \<and> (\<exists>j. field ''token'' (snd (getToken P [] uid i w)) = Some j
                        \<and> field ''accessToken'' j = Some (JText a)
                        \<and> field ''refreshToken'' j = Some (JText s))))"
proof (intro conjI)
  show "\<exists>ts. getAllTokens uid w = (200, JObj [(''tokens'', JArr ts)])
        \<and> length ts = length (filter (\<lambda>t. tok_userId t = uid) (tokens w))
        \<and> (\<forall>t \<in> set ts. object_keys t = listed_keys
              \<and> (\<forall>v. field ''twitchConfig'' t = Some v
                    \<longrightarrow> v = JNull \<or> object_keys v = [''id'', ''clientId'', ''name'']))"
    using sanitized_keys sanitized_config_keys
    by (auto simp: getAllTokens_def)
next
  show "map mask_token (tokens w') = map mask_token (tokens w)
        \<longrightarrow> map mask_config (configs w') = map mask_config (configs w)
        \<longrightarrow> getAllTokens uid w' = getAllTokens uid w"
  proof (intro impI)
    assume t: "map mask_token (tokens w') = map mask_token (tokens w)"
      and c: "map mask_config (configs w') = map mask_config (configs w)"
    let ?v = "w\<lparr>tokens := map mask_token (tokens w), configs := map mask_config (configs w)\<rparr>"
    have "getAllTokens uid ?v = getAllTokens uid w"
      by (rule getAllTokens_masked) simp_all
    moreover have "getAllTokens uid ?v = getAllTokens uid w'"
      by (rule getAllTokens_masked) (simp_all add: t c)
    ultimately show "getAllTokens uid w' = getAllTokens uid w"
      by simp
  qed
next
  show "\<forall>t a. findToken w i = Some t \<longrightarrow> tok_userId t = uid
        \<longrightarrow> decrypt P (tok_accessToken t) = Inr a
        \<longrightarrow> ((tok_refreshToken t = None \<or> tok_refreshToken t = Some [])
               \<longrightarrow> fst (getToken P [] uid i w) = 200
                 \<and> (\<exists>j. field ''token'' (snd (getToken P [] uid i w)) = Some j
                        \<and> field ''accessToken'' j = Some (JText a)
                        \<and> field ''refreshToken'' j = None))
          \<and> (\<forall>r s. tok_refreshToken t = Some r \<longrightarrow> r \<noteq> [] \<longrightarrow> decrypt P r = Inr s
               \<longrightarrow> fst (getToken P [] uid i w) = 200
                 \<and> (\<exists>j. field ''token'' (snd (getToken P [] uid i w)) = Some j
                        \<and> field ''accessToken'' j = Some (JText a)
                        \<and> field ''refreshToken'' j = Some (JText s)))"
    by (auto simp: getToken_def field_def responseToken_def token_tail_def)
qed


theorem listing_hides_secrets_witness:
  "map mask_token (tokens (stored_world\<lparr>tokens :=
        [demo_user_token\<lparr>tok_accessToken := js ''other'', tok_refreshToken := None\<rparr>,
         demo_app_token]\<rparr>)) = map mask_token (tokens stored_world)
   \<and> getAllTokens 7 (stored_world\<lparr>tokens :=
        [demo_user_token\<lparr>tok_accessToken := js ''other'', tok_refreshToken := None\<rparr>,
         demo_app_token]\<rparr>) = getAllTokens 7 stored_world
   \<and> findToken stored_world 5 = Some demo_user_token \<and> tok_userId demo_user_token = 7
   \<and> decrypt demo_process (tok_accessToken demo_user_token) = Inr (js ''tok_0'')
   \<and> tok_refreshToken demo_user_token = Some (js '':01:016b:305f666572'')
   \<and> decrypt demo_process (js '':01:016b:305f666572'') = Inr (js ''ref_0'')
   \<and> fst (getToken demo_process [] 7 5 stored_world) = 200
   \<and> (\<exists>j. field ''token'' (snd (getToken demo_process [] 7 5 stored_world)) = Some j
          \<and> field ''accessToken'' j = Some (JText (js ''tok_0''))
          \<and> field ''refreshToken'' j = Some (JText (js ''ref_0'')))
   \<and> (\<exists>ts. getAllTokens 7 stored_world = (200, JObj [(''tokens'', JArr ts)]) \<and> length ts = 2
          \<and> (\<forall>t \<in> set ts. object_keys t = listed_keys))"
proof -
  let ?w' = "stored_world\<lparr>tokens :=
        [demo_user_token\<lparr>tok_accessToken := js ''other'', tok_refreshToken := None\<rparr>,
         demo_app_token]\<rparr>"
  have m: "map mask_token (tokens ?w') = map mask_token (tokens stored_world)"
    by (simp add: stored_world_def mask_token_def)
  have c: "map mask_config (configs ?w') = map mask_config (configs stored_world)"
    by simp
  have f: "findToken stored_world 5 = Some demo_user_token"
    by (simp add: findToken_def stored_world_def demo_user_token_def)
  have u: "tok_userId demo_user_token = 7"
    and a: "decrypt demo_process (tok_accessToken demo_user_token) = Inr (js ''tok_0'')"
    and r: "tok_refreshToken demo_user_token = Some (js '':01:016b:305f666572'')"
    by (simp_all add: demo_user_token_def demo_decrypt)
  have n: "js '':01:016b:305f666572'' \<noteq> []"
    by (simp add: js_Cons)
  have l: "length (filter (\<lambda>t. tok_userId t = 7) (tokens stored_world)) = 2"
    by (simp add: stored_world_def demo_user_token_def demo_app_token_def)
  note t = listing_hides_secrets [of 7 stored_world ?w' 5 demo_process]
  have 1: "getAllTokens 7 ?w' = getAllTokens 7 stored_world"
    using t m c by blast
  have 2: "fst (getToken demo_process [] 7 5 stored_world) = 200
      \<and> (\<exists>j. field ''token'' (snd (getToken demo_process [] 7 5 stored_world)) = Some j
          \<and> field ''accessToken'' j = Some (JText (js ''tok_0''))
          \<and> field ''refreshToken'' j = Some (JText (js ''ref_0'')))"
    using t f u a r n demo_decrypt(2) by blast
  have 3: "\<exists>ts. getAllTokens 7 stored_world = (200, JObj [(''tokens'', JArr ts)]) \<and> length ts = 2
          \<and> (\<forall>t \<in> set ts. object_keys t = listed_keys)"
    using t l by auto
  show ?thesis
    using m 1 f u a r demo_decrypt(2) 2 3 by blast
qed

section \<open>Existence and ownership guards\<close>






section \<open>Reconciliation of webhooks\<close>

lemma distinct_map_head:
  assumes "distinct (map f (x # xs))" and "y \<in> set xs"
  shows "f y \<noteq> f x"
proof
  assume e: "f y = f x"
  have "f x \<notin> f ` set xs"
    using assms(1) by simp
  moreover have "f y \<in> f ` set xs"
    using assms(2) by (rule imageI)
  ultimately show False
    using e by simp
qed

lemma fold_max_ge: "(a::nat) \<le> fold max xs a"
  by (induction xs arbitrary: a) (auto intro: order_trans [OF max.cobounded2])

lemma fold_max_mem: "x \<in> set xs \<Longrightarrow> (x::nat) \<le> fold max xs a"
proof (induction xs arbitrary: a)
  case Nil
  then show ?case by simp
next
  case (Cons y ys)
  show ?case
  proof (cases "x = y")
    case True
    have "y \<le> max y a" by simp
    also have "\<dots> \<le> fold max ys (max y a)" by (rule fold_max_ge)
    finally show ?thesis using True by simp
  next
    case False
    with Cons show ?thesis by simp
  qed
qed

lemma fresh_notin: "fresh ids \<notin> set ids"
proof
  assume "fresh ids \<in> set ids"
  then have "fresh ids \<le> fold max ids 0" by (rule fold_max_mem)
  then show False by (simp add: fresh_def)
qed

lemma overwrite_key: "row_key (overwrite sub now h) = row_key h"
  by (simp add: row_key_def overwrite_def)

lemma updateMany_keys:
  "map row_key (webhooks (updateManyWebhooks uid sub w)) = map row_key (webhooks w)"
  by (simp add: updateManyWebhooks_def overwrite_key o_def cong: map_cong)

lemma updateMany_foreign:
  "foreign_rows uid (updateManyWebhooks uid sub w) = foreign_rows uid w"
proof -
  have "filter (\<lambda>h. wh_userId h \<noteq> uid)
      (map (\<lambda>h. if wh_userId h = uid \<and> wh_subscriptionId h = sub_id sub
                 then overwrite sub (clock w) h else h) xs)
      = filter (\<lambda>h. wh_userId h \<noteq> uid) xs" for xs
    by (induction xs) (auto simp: overwrite_def)
  then show ?thesis
    by (simp add: foreign_rows_def updateManyWebhooks_def)
qed

lemma updateMany_rest:
  "configs (updateManyWebhooks uid sub w) = configs w"
  "tokens (updateManyWebhooks uid sub w) = tokens w"
  "clock (updateManyWebhooks uid sub w) = clock w"
  by (simp_all add: updateManyWebhooks_def)

lemma ids_of_keys: "map wh_subscriptionId xs = map (\<lambda>k. snd (snd k)) (map row_key xs)"
  "map wh_id xs = map fst (map row_key xs)"
  "map wh_userId xs = map (\<lambda>k. fst (snd k)) (map row_key xs)"
  by (simp_all add: row_key_def o_def)

lemma import_ok:
  assumes "distinct (map sub_id subs)"
    and "\<forall>s \<in> set subs. sub_id s \<notin> set L \<longrightarrow> sub_id s \<notin> set (map wh_subscriptionId (webhooks w))"
  shows "\<exists>w' ks.
      importLoop uid L subs (c, w) =
        (None,
         c\<lparr>totalImported := totalImported c + length (filter (\<lambda>s. sub_id s \<notin> set L) subs),
           totalUpdated := totalUpdated c + length (filter (\<lambda>s. sub_id s \<in> set L) subs)\<rparr>,
         w')
    \<and> map row_key (webhooks w') = map row_key (webhooks w) @ ks
    \<and> map (\<lambda>k. snd (snd k)) ks = map sub_id (filter (\<lambda>s. sub_id s \<notin> set L) subs)
    \<and> (\<forall>k \<in> set ks. fst (snd k) = uid)
    \<and> (distinct (map wh_id (webhooks w)) \<longrightarrow> distinct (map wh_id (webhooks w')))
    \<and> foreign_rows uid w' = foreign_rows uid w
    \<and> configs w' = configs w \<and> tokens w' = tokens w \<and> clock w' = clock w"
  using assms
proof (induction subs arbitrary: c w)
  case Nil
  then show ?case by simp
next
  case (Cons sub subs)
  show ?case
  proof (cases "sub_id sub \<in> set L")
    case True
    let ?w1 = "updateManyWebhooks uid sub w"
    let ?c1 = "c\<lparr>totalUpdated := totalUpdated c + 1\<rparr>"
    have k1: "map row_key (webhooks ?w1) = map row_key (webhooks w)"
      by (rule updateMany_keys)
    then have i1: "map wh_subscriptionId (webhooks ?w1) = map wh_subscriptionId (webhooks w)"
      and j1: "map wh_id (webhooks ?w1) = map wh_id (webhooks w)"
      by (simp_all only: ids_of_keys)
    have "distinct (map sub_id subs)"
      using Cons.prems(1) by simp
    moreover have "\<forall>s \<in> set subs. sub_id s \<notin> set L
        \<longrightarrow> sub_id s \<notin> set (map wh_subscriptionId (webhooks ?w1))"
      using Cons.prems(2) unfolding i1 by simp
    ultimately obtain w' ks where r:
      "importLoop uid L subs (?c1, ?w1) =
        (None,
         ?c1\<lparr>totalImported := totalImported ?c1 + length (filter (\<lambda>s. sub_id s \<notin> set L) subs),
           totalUpdated := totalUpdated ?c1 + length (filter (\<lambda>s. sub_id s \<in> set L) subs)\<rparr>,
         w')"
      "map row_key (webhooks w') = map row_key (webhooks ?w1) @ ks"
      "map (\<lambda>k. snd (snd k)) ks = map sub_id (filter (\<lambda>s. sub_id s \<notin> set L) subs)"
      "\<forall>k \<in> set ks. fst (snd k) = uid"
      "distinct (map wh_id (webhooks ?w1)) \<longrightarrow> distinct (map wh_id (webhooks w'))"
      "foreign_rows uid w' = foreign_rows uid ?w1"
      "configs w' = configs ?w1" "tokens w' = tokens ?w1" "clock w' = clock ?w1"
      using Cons.IH [of ?w1 ?c1] by blast
    show ?thesis
      apply (rule exI [of _ w'], rule exI [of _ ks])
      using True r unfolding k1 j1 updateMany_foreign updateMany_rest
      by simp
  next
    case False
    then have n: "sub_id sub \<notin> set (map wh_subscriptionId (webhooks w))"
      using Cons.prems(2) by simp
    let ?new = "\<lparr> wh_id = fresh (map wh_id (webhooks w)), wh_userId = uid,
                      wh_subscriptionId = sub_id sub, wh_type = sub_type sub,
                      wh_condition = sub_condition sub, wh_callbackUrl = sub_callback sub,
                      wh_status = sub_status sub, wh_cost = cost_or_zero (sub_cost sub),
                      wh_createdAt = clock w, wh_updatedAt = clock w \<rparr>"
    let ?w1 = "w\<lparr>webhooks := webhooks w @ [?new]\<rparr>"
    let ?c1 = "c\<lparr>totalImported := totalImported c + 1\<rparr>"
    have cr: "createWebhookRow uid sub w = Inr ?w1"
      using n by (simp add: createWebhookRow_def)
    have "distinct (map sub_id subs)"
      using Cons.prems(1) by simp
    moreover have "\<forall>s \<in> set subs. sub_id s \<notin> set L
        \<longrightarrow> sub_id s \<notin> set (map wh_subscriptionId (webhooks ?w1))"
    proof (intro ballI impI)
      fix s
      assume s: "s \<in> set subs" "sub_id s \<notin> set L"
      then have "sub_id s \<notin> set (map wh_subscriptionId (webhooks w))"
        using Cons.prems(2) by simp
      moreover have "sub_id s \<noteq> sub_id sub"
        using Cons.prems(1) s(1) by (rule distinct_map_head [of sub_id sub subs s])
      ultimately show "sub_id s \<notin> set (map wh_subscriptionId (webhooks ?w1))"
        by simp
    qed
    ultimately obtain w' ks where r:
      "importLoop uid L subs (?c1, ?w1) =
        (None,
         ?c1\<lparr>totalImported := totalImported ?c1 + length (filter (\<lambda>s. sub_id s \<notin> set L) subs),
           totalUpdated := totalUpdated ?c1 + length (filter (\<lambda>s. sub_id s \<in> set L) subs)\<rparr>,
         w')"
      "map row_key (webhooks w') = map row_key (webhooks ?w1) @ ks"
      "map (\<lambda>k. snd (snd k)) ks = map sub_id (filter (\<lambda>s. sub_id s \<notin> set L) subs)"
      "\<forall>k \<in> set ks. fst (snd k) = uid"
      "distinct (map wh_id (webhooks ?w1)) \<longrightarrow> distinct (map wh_id (webhooks w'))"
      "foreign_rows uid w' = foreign_rows uid ?w1"
      "configs w' = configs ?w1" "tokens w' = tokens ?w1" "clock w' = clock ?w1"
      using Cons.IH [of ?w1 ?c1] by blast
    have d: "distinct (map wh_id (webhooks w)) \<Longrightarrow> distinct (map wh_id (webhooks ?w1))"
      using fresh_notin [of "map wh_id (webhooks w)"] by simp
    have kn: "fst (snd (row_key ?new)) = uid" "snd (snd (row_key ?new)) = sub_id sub"
      by (simp_all add: row_key_def)
    show ?thesis
      apply (rule exI [of _ w'], rule exI [of _ "row_key ?new # ks"])
      using False r d
      by (simp add: cr kn foreign_rows_def)
  qed
qed


lemma remove_ok:
  assumes "distinct (map wh_id lws)"
    and "set (map wh_id lws) \<subseteq> set (map wh_id (webhooks w))"
  shows "removeLoop R lws (c, w) =
      (None,
       c\<lparr>totalRemoved := totalRemoved c + length (filter (\<lambda>h. wh_subscriptionId h \<notin> set R) lws)\<rparr>,
       w\<lparr>webhooks :=
           filter (\<lambda>h. wh_id h \<notin> set (map wh_id (filter (\<lambda>h. wh_subscriptionId h \<notin> set R) lws)))
             (webhooks w)\<rparr>)"
  using assms
proof (induction lws arbitrary: c w)
  case Nil
  then show ?case by simp
next
  case (Cons lw rest)
  have dr: "distinct (map wh_id rest)" and nl: "wh_id lw \<notin> set (map wh_id rest)"
    using Cons.prems(1) by simp_all
  show ?case
  proof (cases "wh_subscriptionId lw \<in> set R")
    case True
    have "set (map wh_id rest) \<subseteq> set (map wh_id (webhooks w))"
      using Cons.prems(2) by simp
    from Cons.IH [OF dr this, of c] True show ?thesis
      by simp
  next
    case False
    let ?w1 = "w\<lparr>webhooks := filter (\<lambda>h. wh_id h \<noteq> wh_id lw) (webhooks w)\<rparr>"
    let ?c1 = "c\<lparr>totalRemoved := totalRemoved c + 1\<rparr>"
    have del: "deleteWebhookRow (wh_id lw) w = Inr ?w1"
      using Cons.prems(2) by (simp add: deleteWebhookRow_def)
    have sub: "set (map wh_id rest) \<subseteq> set (map wh_id (webhooks ?w1))"
    proof
      fix i
      assume i: "i \<in> set (map wh_id rest)"
      then have "i \<noteq> wh_id lw"
        using nl by blast
      moreover have "i \<in> set (map wh_id (webhooks w))"
        using i Cons.prems(2) by auto
      ultimately show "i \<in> set (map wh_id (webhooks ?w1))"
        by auto
    qed
    have f: "filter (\<lambda>h. wh_id h \<notin> set (map wh_id (filter (\<lambda>h. wh_subscriptionId h \<notin> set R) rest)))
          (filter (\<lambda>h. wh_id h \<noteq> wh_id lw) (webhooks w))
        = filter (\<lambda>h. wh_id h \<notin> set (map wh_id (filter (\<lambda>h. wh_subscriptionId h \<notin> set R) (lw # rest))))
          (webhooks w)"
      using False by (auto intro: filter_cong)
    from Cons.IH [OF dr sub, of ?c1] False show ?thesis
      by (simp add: del f del: set_map)
  qed
qed


lemma rows_split:
  "set (map f (webhooks w)) = set (map f (local_rows uid w)) \<union> set (map f (foreign_rows uid w))"
  by (auto simp: local_rows_def foreign_rows_def)

lemma key_filter:
  "map wh_subscriptionId (filter (\<lambda>h. wh_userId h = uid \<and> wh_id h \<notin> D) xs)
     = map (\<lambda>k. snd (snd k)) (filter (\<lambda>k. fst (snd k) = uid \<and> fst k \<notin> D) (map row_key xs))"
  by (induction xs) (simp_all add: row_key_def)

lemma remote_list_Some:
  assumes "remote_list P T w tok = Some R"
  obtains access cfg resp where "decrypt P (tok_accessToken tok) = Inr access"
    and "findConfig w (tok_twitchConfigId tok) = Some cfg"
    and "eventsub_get T access (cfg_clientId cfg) None = Resolved resp"
    and "eb_data resp = R"
  using assms
  by (auto simp: remote_list_def split: sum.splits option.splits axios.splits)

lemma deleted_iff:
  assumes d: "distinct (map wh_id rows)" and h: "h \<in> set rows" "wh_userId h = uid"
  shows "wh_id h \<in> set (map wh_id (filter (\<lambda>x. wh_subscriptionId x \<notin> S)
            (filter (\<lambda>x. wh_userId x = uid) rows)))
         \<longleftrightarrow> wh_subscriptionId h \<notin> S"
proof
  assume "wh_id h \<in> set (map wh_id (filter (\<lambda>x. wh_subscriptionId x \<notin> S)
            (filter (\<lambda>x. wh_userId x = uid) rows)))"
  then obtain x where x: "x \<in> set rows" "wh_subscriptionId x \<notin> S" "wh_id x = wh_id h"
    by auto
  have "inj_on wh_id (set rows)"
    using d by (simp add: distinct_map)
  then have "x = h"
    using x(1,3) h(1) by (auto dest: inj_onD)
  then show "wh_subscriptionId h \<notin> S"
    using x(2) by simp
next
  assume "wh_subscriptionId h \<notin> S"
  then show "wh_id h \<in> set (map wh_id (filter (\<lambda>x. wh_subscriptionId x \<notin> S)
            (filter (\<lambda>x. wh_userId x = uid) rows)))"
    using h by auto
qed

lemma foreign_not_deleted:
  assumes d: "distinct (map wh_id rows)" and h: "h \<in> set rows" "wh_userId h \<noteq> uid"
  shows "wh_id h \<notin> set (map wh_id (filter (\<lambda>x. wh_subscriptionId x \<notin> S)
            (filter (\<lambda>x. wh_userId x = uid) rows)))"
proof
  assume "wh_id h \<in> set (map wh_id (filter (\<lambda>x. wh_subscriptionId x \<notin> S)
            (filter (\<lambda>x. wh_userId x = uid) rows)))"
  then obtain x where x: "x \<in> set rows" "wh_userId x = uid" "wh_id x = wh_id h"
    by auto
  have "inj_on wh_id (set rows)"
    using d by (simp add: distinct_map)
  then have "x = h"
    using x(1,3) h(1) by (auto dest: inj_onD)
  then show False
    using x(2) h(2) by simp
qed


lemma import_preserves:
  assumes "importLoop uid L subs (c, w) = (e, c', w')"
    and "\<forall>s \<in> set subs. sub_id s \<noteq> k"
  shows "filter (\<lambda>h. wh_subscriptionId h = k) (webhooks w')
       = filter (\<lambda>h. wh_subscriptionId h = k) (webhooks w)"
  using assms
proof (induction subs arbitrary: c w)
  case Nil
  then show ?case by simp
next
  case (Cons sub subs)
  have ne: "sub_id sub \<noteq> k" and rest: "\<forall>s \<in> set subs. sub_id s \<noteq> k"
    using Cons.prems(2) by simp_all
  show ?case
  proof (cases "sub_id sub \<in> set L")
    case True
    let ?w1 = "updateManyWebhooks uid sub w"
    have "importLoop uid L subs (c\<lparr>totalUpdated := totalUpdated c + 1\<rparr>, ?w1) = (e, c', w')"
      using Cons.prems(1) True by simp
    from Cons.IH [OF this rest]
    have "filter (\<lambda>h. wh_subscriptionId h = k) (webhooks w')
        = filter (\<lambda>h. wh_subscriptionId h = k) (webhooks ?w1)" .
    also have "\<dots> = filter (\<lambda>h. wh_subscriptionId h = k) (webhooks w)"
    proof -
      have "filter (\<lambda>h. wh_subscriptionId h = k)
          (map (\<lambda>h. if wh_userId h = uid \<and> wh_subscriptionId h = sub_id sub
                     then overwrite sub (clock w) h else h) xs)
          = filter (\<lambda>h. wh_subscriptionId h = k) xs" for xs
        using ne by (induction xs) (auto simp: overwrite_def)
      then show ?thesis
        by (simp add: updateManyWebhooks_def)
    qed
    finally show ?thesis .
  next
    case False
    show ?thesis
    proof (cases "createWebhookRow uid sub w")
      case (Inl ex)
      then show ?thesis
        using Cons.prems(1) False by simp
    next
      case (Inr w1)
      then have "w1 = w\<lparr>webhooks := webhooks w @
                  [\<lparr> wh_id = fresh (map wh_id (webhooks w)), wh_userId = uid,
                      wh_subscriptionId = sub_id sub, wh_type = sub_type sub,
                      wh_condition = sub_condition sub, wh_callbackUrl = sub_callback sub,
                      wh_status = sub_status sub, wh_cost = cost_or_zero (sub_cost sub),
                      wh_createdAt = clock w, wh_updatedAt = clock w \<rparr>]\<rparr>"
        by (simp add: createWebhookRow_def split: if_splits)
      then have w1: "filter (\<lambda>h. wh_subscriptionId h = k) (webhooks w1)
          = filter (\<lambda>h. wh_subscriptionId h = k) (webhooks w)"
        using ne by simp
      have "importLoop uid L subs (c\<lparr>totalImported := totalImported c + 1\<rparr>, w1) = (e, c', w')"
        using Cons.prems(1) False Inr by simp
      from Cons.IH [OF this rest] w1 show ?thesis
        by simp
    qed
  qed
qed

lemma updateMany_mirrors:
  assumes "h \<in> set (webhooks (updateManyWebhooks uid sub w))"
    and "wh_userId h = uid" and "wh_subscriptionId h = sub_id sub"
  shows "mirrors sub h"
proof -
  let ?u = "\<lambda>x. if wh_userId x = uid \<and> wh_subscriptionId x = sub_id sub
                then overwrite sub (clock w) x else x"
  have "h \<in> ?u ` set (webhooks w)"
    using assms(1) by (simp add: updateManyWebhooks_def)
  then obtain x where x: "h = ?u x"
    by (rule imageE)
  show ?thesis
  proof (cases "wh_userId x = uid \<and> wh_subscriptionId x = sub_id sub")
    case True
    then have "h = overwrite sub (clock w) x"
      using x by simp
    then show ?thesis
      by (simp add: overwrite_def mirrors_def)
  next
    case False
    have "h = x"
      using x False by (simp only: if_False)
    then show ?thesis
      using False assms(2,3) by blast
  qed
qed

lemma create_mirrors:
  assumes "createWebhookRow uid sub w = Inr w1"
    and "h \<in> set (webhooks w1)" and "wh_subscriptionId h = sub_id sub"
  shows "mirrors sub h"
proof -
  let ?new = "\<lparr> wh_id = fresh (map wh_id (webhooks w)), wh_userId = uid,
                      wh_subscriptionId = sub_id sub, wh_type = sub_type sub,
                      wh_condition = sub_condition sub, wh_callbackUrl = sub_callback sub,
                      wh_status = sub_status sub, wh_cost = cost_or_zero (sub_cost sub),
                      wh_createdAt = clock w, wh_updatedAt = clock w \<rparr>"
  have n: "sub_id sub \<notin> set (map wh_subscriptionId (webhooks w))"
    and w1: "w1 = w\<lparr>webhooks := webhooks w @ [?new]\<rparr>"
    using assms(1) by (simp_all add: createWebhookRow_def split: if_splits)
  have "h \<in> set (webhooks w) \<or> h = ?new"
    using assms(2) unfolding w1 by auto
  moreover have "h \<notin> set (webhooks w)"
  proof
    assume "h \<in> set (webhooks w)"
    then have "wh_subscriptionId h \<in> set (map wh_subscriptionId (webhooks w))"
      by simp
    then show False
      using n assms(3) by simp
  qed
  ultimately have "h = ?new"
    by blast
  then show ?thesis
    by (simp add: mirrors_def)
qed

lemma import_fields:
  assumes "importLoop uid L subs (c, w) = (None, c', w')"
    and "distinct (map sub_id subs)"
  shows "\<forall>s \<in> set subs. \<forall>h \<in> set (webhooks w').
           wh_userId h = uid \<and> wh_subscriptionId h = sub_id s \<longrightarrow> mirrors s h"
  using assms
proof (induction subs arbitrary: c w)
  case Nil
  then show ?case by simp
next
  case (Cons sub subs)
  have d: "distinct (map sub_id subs)"
    using Cons.prems(2) by simp
  have ne: "\<forall>s \<in> set subs. sub_id s \<noteq> sub_id sub"
  proof
    fix s
    assume "s \<in> set subs"
    with Cons.prems(2) show "sub_id s \<noteq> sub_id sub"
      by (rule distinct_map_head [of sub_id sub subs s])
  qed
  obtain c1 w1 where step: "importLoop uid L subs (c1, w1) = (None, c', w')"
    and here: "\<forall>h \<in> set (webhooks w1).
        wh_userId h = uid \<and> wh_subscriptionId h = sub_id sub \<longrightarrow> mirrors sub h"
  proof (cases "sub_id sub \<in> set L")
    case True
    let ?w1 = "updateManyWebhooks uid sub w"
    have "importLoop uid L subs (c\<lparr>totalUpdated := totalUpdated c + 1\<rparr>, ?w1) = (None, c', w')"
      using Cons.prems(1) True by simp
    moreover have "\<forall>h \<in> set (webhooks ?w1).
        wh_userId h = uid \<and> wh_subscriptionId h = sub_id sub \<longrightarrow> mirrors sub h"
      using updateMany_mirrors by blast
    ultimately show ?thesis
      by (rule that)
  next
    case False
    show ?thesis
    proof (cases "createWebhookRow uid sub w")
      case (Inl ex)
      then show ?thesis
        using Cons.prems(1) False by simp
    next
      case (Inr w1)
      have "importLoop uid L subs (c\<lparr>totalImported := totalImported c + 1\<rparr>, w1) = (None, c', w')"
        using Cons.prems(1) False Inr by simp
      moreover have "\<forall>h \<in> set (webhooks w1).
          wh_userId h = uid \<and> wh_subscriptionId h = sub_id sub \<longrightarrow> mirrors sub h"
        using create_mirrors [OF Inr] by blast
      ultimately show ?thesis
        by (rule that)
    qed
  qed
  have keep: "filter (\<lambda>h. wh_subscriptionId h = sub_id sub) (webhooks w')
      = filter (\<lambda>h. wh_subscriptionId h = sub_id sub) (webhooks w1)"
    using import_preserves [OF step ne] .
  have first: "\<forall>h \<in> set (webhooks w').
      wh_userId h = uid \<and> wh_subscriptionId h = sub_id sub \<longrightarrow> mirrors sub h"
  proof (intro ballI impI)
    fix h
    assume h: "h \<in> set (webhooks w')" "wh_userId h = uid \<and> wh_subscriptionId h = sub_id sub"
    then have "h \<in> set (filter (\<lambda>h. wh_subscriptionId h = sub_id sub) (webhooks w'))"
      by simp
    then have "h \<in> set (webhooks w1)"
      unfolding keep by simp
    then show "mirrors sub h"
      using here h(2) by blast
  qed
  from Cons.IH [OF step d] first show ?case
    by simp
qed

lemma syncToken_ok:
  assumes ok: "db_ok w" and rl: "remote_list P T w tok = Some R" and imp: "importable uid w R"
  shows "\<exists>w' label.
      syncToken P T uid tok (c, w) =
        (c\<lparr>totalImported := totalImported c
              + length (filter (\<lambda>s. sub_id s \<notin> set (map wh_subscriptionId (local_rows uid w))) R),
           totalUpdated := totalUpdated c
              + length (filter (\<lambda>s. sub_id s \<in> set (map wh_subscriptionId (local_rows uid w))) R),
           totalRemoved := totalRemoved c
              + length (filter (\<lambda>h. wh_subscriptionId h \<notin> set (map sub_id R)) (local_rows uid w)),
           totalSubscriptions := totalSubscriptions c + length R,
           configsSynced := configsSynced c @ [label]\<rparr>,
         w')
    \<and> map wh_subscriptionId (local_rows uid w') =
        filter (\<lambda>i. i \<in> set (map sub_id R)) (map wh_subscriptionId (local_rows uid w))
        @ filter (\<lambda>i. i \<notin> set (map wh_subscriptionId (local_rows uid w))) (map sub_id R)
    \<and> foreign_rows uid w' = foreign_rows uid w
    \<and> db_ok w'
    \<and> (\<forall>s \<in> set R. \<forall>h \<in> set (local_rows uid w').
          wh_subscriptionId h = sub_id s \<longrightarrow> mirrors s h)
    \<and> configs w' = configs w \<and> tokens w' = tokens w
    \<and> map_option (\<lambda>g. or_default (cfg_name g) (cfg_clientId g))
          (findConfig w (tok_twitchConfigId tok)) = Some label"
proof -
  let ?loc = "local_rows uid w"
  let ?L = "map wh_subscriptionId ?loc"
  let ?Rids = "map sub_id R"
  obtain access cfg resp where a: "decrypt P (tok_accessToken tok) = Inr access"
    and f: "findConfig w (tok_twitchConfigId tok) = Some cfg"
    and g: "eventsub_get T access (cfg_clientId cfg) None = Resolved resp"
    and e: "eb_data resp = R"
    using rl by (rule remote_list_Some)
  let ?label = "or_default (cfg_name cfg) (cfg_clientId cfg)"
  let ?c1 = "c\<lparr>totalSubscriptions := totalSubscriptions c + length R,
              configsSynced := configsSynced c @ [?label]\<rparr>"
  have dR: "distinct ?Rids"
    and nf: "\<forall>s \<in> set R. sub_id s \<notin> set (map wh_subscriptionId (foreign_rows uid w))"
    using imp by (simp_all add: importable_def)
  have dI: "distinct (map wh_id (webhooks w))" and dS: "distinct (map wh_subscriptionId (webhooks w))"
    using ok by (simp_all add: db_ok_def)
  have pre: "\<forall>s \<in> set R. sub_id s \<notin> set ?L
      \<longrightarrow> sub_id s \<notin> set (map wh_subscriptionId (webhooks w))"
    using nf unfolding rows_split [of wh_subscriptionId w uid] by blast
  obtain wi ks where
    il: "importLoop uid ?L R (?c1, w) =
        (None,
         ?c1\<lparr>totalImported := totalImported ?c1 + length (filter (\<lambda>s. sub_id s \<notin> set ?L) R),
             totalUpdated := totalUpdated ?c1 + length (filter (\<lambda>s. sub_id s \<in> set ?L) R)\<rparr>,
         wi)"
    and keys: "map row_key (webhooks wi) = map row_key (webhooks w) @ ks"
    and ksub: "map (\<lambda>k. snd (snd k)) ks = map sub_id (filter (\<lambda>s. sub_id s \<notin> set ?L) R)"
    and kuid: "\<forall>k \<in> set ks. fst (snd k) = uid"
    and dIi: "distinct (map wh_id (webhooks wi))"
    and fi: "foreign_rows uid wi = foreign_rows uid w"
    and ri: "configs wi = configs w" "tokens wi = tokens w"
    using import_ok [OF dR pre, of uid ?c1] dI by blast
  have idsI: "map wh_id (webhooks wi) = map wh_id (webhooks w) @ map fst ks"
    and idsS: "map wh_subscriptionId (webhooks wi)
        = map wh_subscriptionId (webhooks w) @ map sub_id (filter (\<lambda>s. sub_id s \<notin> set ?L) R)"
    using keys ksub by (simp_all add: ids_of_keys)
  let ?del = "filter (\<lambda>h. wh_subscriptionId h \<notin> set ?Rids) ?loc"
  let ?D = "set (map wh_id ?del)"
  have dl: "distinct (map wh_id ?loc)"
    unfolding local_rows_def using dI by (rule distinct_map_filter)
  have sl: "set (map wh_id ?loc) \<subseteq> set (map wh_id (webhooks wi))"
    unfolding idsI by (auto simp: local_rows_def)
  let ?cf = "c\<lparr>totalImported := totalImported c + length (filter (\<lambda>s. sub_id s \<notin> set ?L) R),
              totalUpdated := totalUpdated c + length (filter (\<lambda>s. sub_id s \<in> set ?L) R),
              totalRemoved := totalRemoved c + length ?del,
              totalSubscriptions := totalSubscriptions c + length R,
              configsSynced := configsSynced c @ [?label]\<rparr>"
  let ?wf = "wi\<lparr>webhooks := filter (\<lambda>h. wh_id h \<notin> ?D) (webhooks wi)\<rparr>"
  have rm: "removeLoop ?Rids ?loc
      (?c1\<lparr>totalImported := totalImported ?c1 + length (filter (\<lambda>s. sub_id s \<notin> set ?L) R),
           totalUpdated := totalUpdated ?c1 + length (filter (\<lambda>s. sub_id s \<in> set ?L) R)\<rparr>, wi)
      = (None, ?cf, ?wf)"
    using remove_ok [OF dl sl, of ?Rids
        "?c1\<lparr>totalImported := totalImported ?c1 + length (filter (\<lambda>s. sub_id s \<notin> set ?L) R),
           totalUpdated := totalUpdated ?c1 + length (filter (\<lambda>s. sub_id s \<in> set ?L) R)\<rparr>"]
    by simp
  have res: "syncToken P T uid tok (c, w) = (?cf, ?wf)"
    using il rm
    by (simp add: syncToken_def a f g e Let_def local_rows_def [symmetric])
  \<comment> \<open>the rows of the user afterwards\<close>
  have fresh_ks: "\<forall>k \<in> set ks. fst k \<notin> ?D"
  proof
    fix k
    assume k: "k \<in> set ks"
    have "set (map wh_id (webhooks w)) \<inter> set (map fst ks) = {}"
      using dIi unfolding idsI by simp
    moreover have "?D \<subseteq> set (map wh_id (webhooks w))"
      by (auto simp: local_rows_def)
    moreover have "fst k \<in> set (map fst ks)"
      using k by simp
    ultimately show "fst k \<notin> ?D"
      by blast
  qed
  have partB: "filter (\<lambda>k. fst (snd k) = uid \<and> fst k \<notin> ?D) ks = ks"
    using kuid fresh_ks by (simp add: filter_id_conv)
  have partA: "filter (\<lambda>h. wh_userId h = uid \<and> wh_id h \<notin> ?D) (webhooks w)
      = filter (\<lambda>h. wh_subscriptionId h \<in> set ?Rids) ?loc"
  proof -
    have "filter (\<lambda>h. wh_userId h = uid \<and> wh_id h \<notin> ?D) (webhooks w)
        = filter (\<lambda>h. wh_userId h = uid \<and> wh_subscriptionId h \<in> set ?Rids) (webhooks w)"
    proof (rule filter_cong [OF refl])
      fix h
      assume h: "h \<in> set (webhooks w)"
      show "(wh_userId h = uid \<and> wh_id h \<notin> ?D)
          = (wh_userId h = uid \<and> wh_subscriptionId h \<in> set ?Rids)"
        using deleted_iff [OF dI h, of uid "set ?Rids"]
        unfolding local_rows_def by blast
    qed
    then show ?thesis
      by (simp add: local_rows_def conj_commute)
  qed
  have loc': "map wh_subscriptionId (local_rows uid ?wf) =
        filter (\<lambda>i. i \<in> set ?Rids) ?L @ filter (\<lambda>i. i \<notin> set ?L) ?Rids"
  proof -
    have "map wh_subscriptionId (local_rows uid ?wf)
        = map wh_subscriptionId (filter (\<lambda>h. wh_userId h = uid \<and> wh_id h \<notin> ?D) (webhooks wi))"
      by (simp add: local_rows_def conj_commute)
    also have "\<dots> = map (\<lambda>k. snd (snd k))
        (filter (\<lambda>k. fst (snd k) = uid \<and> fst k \<notin> ?D) (map row_key (webhooks wi)))"
      by (rule key_filter)
    also have "\<dots> = map (\<lambda>k. snd (snd k))
        (filter (\<lambda>k. fst (snd k) = uid \<and> fst k \<notin> ?D) (map row_key (webhooks w)))
        @ map (\<lambda>k. snd (snd k)) ks"
      unfolding keys by (simp only: filter_append map_append partB)
    also have "map (\<lambda>k. snd (snd k))
        (filter (\<lambda>k. fst (snd k) = uid \<and> fst k \<notin> ?D) (map row_key (webhooks w)))
        = map wh_subscriptionId (filter (\<lambda>h. wh_userId h = uid \<and> wh_id h \<notin> ?D) (webhooks w))"
      by (rule key_filter [symmetric])
    also have "map wh_subscriptionId (filter (\<lambda>h. wh_userId h = uid \<and> wh_id h \<notin> ?D) (webhooks w))
        = filter (\<lambda>i. i \<in> set ?Rids) ?L"
      unfolding partA by (simp add: filter_map o_def)
    also have "map (\<lambda>k. snd (snd k)) ks = filter (\<lambda>i. i \<notin> set ?L) ?Rids"
      unfolding ksub by (simp add: filter_map o_def)
    finally show ?thesis .
  qed
  have for': "foreign_rows uid ?wf = foreign_rows uid w"
  proof -
    have "foreign_rows uid ?wf = filter (\<lambda>h. wh_id h \<notin> ?D) (foreign_rows uid wi)"
      by (simp add: foreign_rows_def conj_commute)
    also have "\<dots> = filter (\<lambda>h. wh_id h \<notin> ?D) (foreign_rows uid w)"
      by (simp only: fi)
    also have "\<dots> = foreign_rows uid w"
    proof -
      have "\<forall>h \<in> set (foreign_rows uid w). wh_id h \<notin> ?D"
        using foreign_not_deleted [OF dI, of _ uid "set ?Rids"]
        unfolding local_rows_def foreign_rows_def by auto
      then show ?thesis
        by (simp add: filter_id_conv)
    qed
    finally show ?thesis .
  qed
  have ok': "db_ok ?wf"
  proof -
    have "distinct (map sub_id (filter (\<lambda>s. sub_id s \<notin> set ?L) R))"
      using dR by (rule distinct_map_filter)
    moreover have "set (map wh_subscriptionId (webhooks w))
        \<inter> set (map sub_id (filter (\<lambda>s. sub_id s \<notin> set ?L) R)) = {}"
    proof (rule ccontr)
      assume "set (map wh_subscriptionId (webhooks w))
        \<inter> set (map sub_id (filter (\<lambda>s. sub_id s \<notin> set ?L) R)) \<noteq> {}"
      then obtain i where i: "i \<in> set (map wh_subscriptionId (webhooks w))"
        "i \<in> set (map sub_id (filter (\<lambda>s. sub_id s \<notin> set ?L) R))"
        by blast
      from i(2) obtain s where s: "s \<in> set R" "sub_id s \<notin> set ?L" "i = sub_id s"
        by auto
      then have "sub_id s \<notin> set (map wh_subscriptionId (webhooks w))"
        using pre by blast
      then show False
        using i(1) s(3) by simp
    qed
    ultimately have "distinct (map wh_subscriptionId (webhooks wi))"
      unfolding idsS using dS by simp
    then have "distinct (map wh_subscriptionId (filter (\<lambda>h. wh_id h \<notin> ?D) (webhooks wi)))"
      by (rule distinct_map_filter)
    moreover have "distinct (map wh_id (filter (\<lambda>h. wh_id h \<notin> ?D) (webhooks wi)))"
      using dIi by (rule distinct_map_filter)
    ultimately show ?thesis
      by (simp add: db_ok_def)
  qed
  have mir: "\<forall>s \<in> set R. \<forall>h \<in> set (local_rows uid ?wf).
          wh_subscriptionId h = sub_id s \<longrightarrow> mirrors s h"
  proof (intro ballI impI)
    fix s h
    assume s: "s \<in> set R" and h: "h \<in> set (local_rows uid ?wf)"
      and e: "wh_subscriptionId h = sub_id s"
    from h have "h \<in> set (webhooks wi)" and "wh_userId h = uid"
      by (simp_all add: local_rows_def)
    with import_fields [OF il dR] s e show "mirrors s h"
      by blast
  qed
  show ?thesis
    apply (rule exI [of _ ?wf], rule exI [of _ ?label])
    using res loc' for' ok' mir ri f by simp
qed





lemma syncWebhooks_fold:
  "app_tokens uid cid w = toks \<Longrightarrow> toks \<noteq> [] \<Longrightarrow>
   syncWebhooks P T uid cid w =
     (sync_report (fst (fold (syncToken P T uid) toks (no_counts, w))),
      snd (fold (syncToken P T uid) toks (no_counts, w)))"
  by (simp add: syncWebhooks_def case_prod_beta)

lemma no_counts_simps:
  "totalImported no_counts = 0" "totalUpdated no_counts = 0" "totalRemoved no_counts = 0"
  "totalSubscriptions no_counts = 0" "configsSynced no_counts = []"
  by (simp_all add: no_counts_def)

lemma pass_one_token:
  assumes ok: "db_ok w" and toks: "app_tokens uid cid w = [tok]"
    and rl: "remote_list P T w tok = Some R" and imp: "importable uid w R"
  shows "\<exists>w' label.
      syncWebhooks P T uid cid w =
        (sync_report
           \<lparr> totalImported =
               length (filter (\<lambda>s. sub_id s \<notin> set (map wh_subscriptionId (local_rows uid w))) R),
             totalUpdated =
               length (filter (\<lambda>s. sub_id s \<in> set (map wh_subscriptionId (local_rows uid w))) R),
             totalRemoved =
               length (filter (\<lambda>h. wh_subscriptionId h \<notin> set (map sub_id R)) (local_rows uid w)),
             totalSubscriptions = length R,
             configsSynced = [label] \<rparr>,
         w')
    \<and> map wh_subscriptionId (local_rows uid w') =
        filter (\<lambda>i. i \<in> set (map sub_id R)) (map wh_subscriptionId (local_rows uid w))
        @ filter (\<lambda>i. i \<notin> set (map wh_subscriptionId (local_rows uid w))) (map sub_id R)
    \<and> foreign_rows uid w' = foreign_rows uid w
    \<and> db_ok w'
    \<and> (\<forall>s \<in> set R. \<forall>h \<in> set (local_rows uid w').
          wh_subscriptionId h = sub_id s \<longrightarrow> mirrors s h)
    \<and> configs w' = configs w \<and> tokens w' = tokens w
    \<and> map_option (\<lambda>g. or_default (cfg_name g) (cfg_clientId g))
          (findConfig w (tok_twitchConfigId tok)) = Some label"
proof -
  obtain w' label where r: "syncToken P T uid tok (no_counts, w) =
        (no_counts\<lparr>totalImported := totalImported no_counts
              + length (filter (\<lambda>s. sub_id s \<notin> set (map wh_subscriptionId (local_rows uid w))) R),
           totalUpdated := totalUpdated no_counts
              + length (filter (\<lambda>s. sub_id s \<in> set (map wh_subscriptionId (local_rows uid w))) R),
           totalRemoved := totalRemoved no_counts
              + length (filter (\<lambda>h. wh_subscriptionId h \<notin> set (map sub_id R)) (local_rows uid w)),
           totalSubscriptions := totalSubscriptions no_counts + length R,
           configsSynced := configsSynced no_counts @ [label]\<rparr>,
         w')"
    and rest: "map wh_subscriptionId (local_rows uid w') =
        filter (\<lambda>i. i \<in> set (map sub_id R)) (map wh_subscriptionId (local_rows uid w))
        @ filter (\<lambda>i. i \<notin> set (map wh_subscriptionId (local_rows uid w))) (map sub_id R)"
      "foreign_rows uid w' = foreign_rows uid w" "db_ok w'"
      "\<forall>s \<in> set R. \<forall>h \<in> set (local_rows uid w').
          wh_subscriptionId h = sub_id s \<longrightarrow> mirrors s h"
      "configs w' = configs w" "tokens w' = tokens w"
      "map_option (\<lambda>g. or_default (cfg_name g) (cfg_clientId g))
          (findConfig w (tok_twitchConfigId tok)) = Some label"
    using syncToken_ok [OF ok rl imp, of no_counts] by blast
  have "syncWebhooks P T uid cid w =
      (sync_report (fst (syncToken P T uid tok (no_counts, w))),
       snd (syncToken P T uid tok (no_counts, w)))"
    using syncWebhooks_fold [OF toks] by simp
  then have "syncWebhooks P T uid cid w =
        (sync_report
           \<lparr> totalImported =
               length (filter (\<lambda>s. sub_id s \<notin> set (map wh_subscriptionId (local_rows uid w))) R),
             totalUpdated =
               length (filter (\<lambda>s. sub_id s \<in> set (map wh_subscriptionId (local_rows uid w))) R),
             totalRemoved =
               length (filter (\<lambda>h. wh_subscriptionId h \<notin> set (map sub_id R)) (local_rows uid w)),
             totalSubscriptions = length R,
             configsSynced = [label] \<rparr>,
         w')"
    unfolding r by (simp add: no_counts_def)
  then show ?thesis
    using rest by blast
qed











lemma sync_world_ok:
  "db_ok sync_world" "app_tokens 7 None sync_world = [demo_app_token]"
  "importable 7 sync_world [demo_sub ''sub-a'', demo_sub ''sub-b'']"
  "importable 7 sync_world [demo_sub ''sub-a'']"
  "local_rows 7 sync_world = [demo_row 3 ''sub-b'', demo_row 4 ''sub-c'']"
  by (simp_all add: db_ok_def app_tokens_def importable_def foreign_rows_def local_rows_def
      sync_world_def demo_world_def demo_app_token_def demo_row_def demo_sub_def)

lemma sync_world_lists:
  "remote_list demo_process one_page sync_world demo_app_token
     = Some [demo_sub ''sub-a'', demo_sub ''sub-b'']"
  "remote_list demo_process two_pages sync_world demo_app_token = Some [demo_sub ''sub-a'']"
  by (simp_all add: remote_list_def demo_decrypt findConfig_def sync_world_def demo_world_def
      demo_app_token_def demo_config_def one_page_def two_pages_def listing_def page_def)




lemma report_fields:
  "field ''imported'' (snd (sync_report c)) = Some (JNum (int (totalImported c)))"
  "field ''updated'' (snd (sync_report c)) = Some (JNum (int (totalUpdated c)))"
  "field ''removed'' (snd (sync_report c)) = Some (JNum (int (totalRemoved c)))"
  "field ''total'' (snd (sync_report c)) = Some (JNum (int (totalSubscriptions c)))"
  "fst (sync_report c) = 200"
  by (simp_all add: sync_report_def field_def)







text \<open>
  Claim C5, amended. The pass sends one list request per token, without a cursor, and
  works with the page that request returns: two providers that answer the cursor-less
  request alike give the same response and the same state, whatever they answer to a
  request with a cursor.
\<close>

theorem sync_reads_first_page:
  assumes "\<forall>a c. eventsub_get T a c None = eventsub_get T' a c None"
  shows "syncWebhooks P T uid cid w = syncWebhooks P T' uid cid w"
proof -
  have same: "eventsub_get T a c None = eventsub_get T' a c None" for a c
    using assms by simp
  have "syncToken P T uid tok st = syncToken P T' uid tok st" for tok st
    unfolding syncToken_def same ..
  then have eq: "syncToken P T uid = syncToken P T' uid"
    by (intro ext)
  show ?thesis
    unfolding syncWebhooks_def eq ..
qed

theorem sync_reads_first_page_witness:
  "eventsub_get two_pages (js ''app_0'') ''abc123'' None
     = eventsub_get first_page (js ''app_0'') ''abc123'' None
   \<and> eventsub_get two_pages (js ''app_0'') ''abc123'' (Some ''p2'')
     \<noteq> eventsub_get first_page (js ''app_0'') ''abc123'' (Some ''p2'')
   \<and> syncWebhooks demo_process two_pages 7 None sync_world
     = syncWebhooks demo_process first_page 7 None sync_world"
  using sync_reads_first_page [of two_pages first_page demo_process 7 None sync_world]
  by (simp add: two_pages_def first_page_def listing_def page_def)

text \<open>
  Claim C5 as stated fails: the provider lists \<open>sub-a\<close> on its first page and \<open>sub-b\<close> on
  its second, so the full list has both; the pass works with \<open>sub-a\<close> alone, reports a
  total of 1 and deletes the local row of \<open>sub-b\<close>.
\<close>

theorem second_page_ignored_counterexample:
  "spec_full_list 2 (eventsub_get two_pages (js ''app_0'') ''abc123'') None
     = Some [demo_sub ''sub-a'', demo_sub ''sub-b'']
   \<and> remote_list demo_process two_pages sync_world demo_app_token = Some [demo_sub ''sub-a'']
   \<and> map wh_subscriptionId (local_rows 7 sync_world) = [''sub-b'', ''sub-c'']
   \<and> field ''total'' (snd (fst (syncWebhooks demo_process two_pages 7 None sync_world)))
       = Some (JNum 1)
   \<and> field ''removed'' (snd (fst (syncWebhooks demo_process two_pages 7 None sync_world)))
       = Some (JNum 2)
   \<and> map wh_subscriptionId
        (local_rows 7 (snd (syncWebhooks demo_process two_pages 7 None sync_world)))
       = [''sub-a'']"
proof -
  have full: "spec_full_list 2 (eventsub_get two_pages (js ''app_0'') ''abc123'') None
     = Some [demo_sub ''sub-a'', demo_sub ''sub-b'']"
    by (simp add: numeral_2_eq_2 two_pages_def listing_def page_def)
  have loc: "map wh_subscriptionId (local_rows 7 sync_world) = [''sub-b'', ''sub-c'']"
    by (simp add: sync_world_ok(5) demo_row_def)
  obtain w' label where run: "syncWebhooks demo_process two_pages 7 None sync_world =
        (sync_report
           \<lparr> totalImported = 1, totalUpdated = 0, totalRemoved = 2, totalSubscriptions = 1,
             configsSynced = [label] \<rparr>, w')"
    and ids: "map wh_subscriptionId (local_rows 7 w') = [''sub-a'']"
    using pass_one_token [OF sync_world_ok(1,2) sync_world_lists(2) sync_world_ok(4)]
    by (auto simp: sync_world_ok(5) demo_sub_def demo_row_def numeral_2_eq_2)
  show ?thesis
    using full sync_world_lists(2) loc ids by (simp add: run report_fields)
qed



















end
